theory Spec2Isabelle
  imports Complex_Main
begin

section \<open>Python helpers of session\_manager.py\<close>

text \<open>
  Node names, property paths and hash keys are Python strings. A Python exception raised by
  a call into the host application is the single value \<open>Exception\<close>: every handler of
  the source is \<^verbatim>\<open>except Exception\<close> and never looks at the exception.
\<close>

type_synonym node = string

datatype exn = Exception

text \<open>\<^verbatim>\<open>array.index(value)\<close>: the position of the first occurrence, ValueError if there is
  none.\<close>

fun list_index :: "'a list \<Rightarrow> 'a \<Rightarrow> exn + nat" where
  "list_index [] v = Inl Exception"
| "list_index (a # as) v =
     (if a = v then Inr 0
      else (case list_index as v of Inl e \<Rightarrow> Inl e | Inr i \<Rightarrow> Inr (Suc i)))"

definition indexOf :: "'a list \<Rightarrow> 'a \<Rightarrow> int" where
  "indexOf array v = (case list_index array v of Inr i \<Rightarrow> int i | Inl _ \<Rightarrow> - 1)"

definition remove :: "'a list \<Rightarrow> 'a \<Rightarrow> 'a list" where
  "remove array v = [a \<leftarrow> array. a \<noteq> v]"

text \<open>\<^verbatim>\<open>keys[i]\<close> and \<^verbatim>\<open>keys[i] = value\<close> on a list of length \<open>len\<close>: the position
  read or written, counted from the end for a negative \<open>i\<close>, or IndexError.\<close>

definition py_index :: "nat \<Rightarrow> int \<Rightarrow> exn + nat" where
  "py_index len i =
     (if 0 \<le> i \<and> i < int len then Inr (nat i)
      else if i < 0 \<and> - int len \<le> i then Inr (nat (int len + i))
      else Inl Exception)"

definition list_get :: "'a list \<Rightarrow> int \<Rightarrow> exn + 'a" where
  "list_get xs i = (case py_index (length xs) i of Inl e \<Rightarrow> Inl e | Inr j \<Rightarrow> Inr (xs ! j))"

definition list_set :: "'a list \<Rightarrow> int \<Rightarrow> 'a \<Rightarrow> exn + 'a list" where
  "list_set xs i v =
     (case py_index (length xs) i of Inl e \<Rightarrow> Inl e | Inr j \<Rightarrow> Inr (xs[j := v]))"

text \<open>\<^verbatim>\<open>try: ... except Exception: pass\<close> around a last statement that writes the state: the
  state stays as it was when the statement raises.\<close>

definition except_pass :: "'s \<Rightarrow> exn + 's \<Rightarrow> 's" where
  "except_pass s r = (case r of Inl _ \<Rightarrow> s | Inr s' \<Rightarrow> s')"

section \<open>Sub-component identity\<close>

definition hashedSubComponent :: "string \<Rightarrow> string option \<Rightarrow> string option \<Rightarrow> string" where
  "hashedSubComponent media view layer =
     (let v = (if view \<noteq> None \<and> view = Some [] then Some ''@.'' else view);
          l = (if layer \<noteq> None \<and> layer = Some [] then Some ''@.'' else layer)
      in case v of
           None \<Rightarrow> (case l of
                      None \<Rightarrow> media @ ''!~!~''
                    | Some l' \<Rightarrow> media @ ''!~'' @ l' @ ''!~'')
         | Some v' \<Rightarrow> (case l of
                      None \<Rightarrow> media @ ''!~!~'' @ v'
                    | Some l' \<Rightarrow> media @ ''!~'' @ l' @ ''!~'' @ v'))"

section \<open>The property store of the graph facade\<close>

text \<open>
  Modelled from the spec: the property get/set/exists commands of the host application
  (\<^verbatim>\<open>rv.commands\<close>) are not among the sources. The spec gives nodes ``a set of typed
  properties (string/int/float arrays keyed by dotted names)'', read and written by
  \<^verbatim>\<open>getProperty/setProperty(path, kind, values, createIfMissing)\<close>, and names ``property
  type mismatch'' as a failure of a read or a write. So: a store maps a dotted path to a
  typed array; a read of a missing path or of the other kind raises; a write with the
  create flag (the only form the session manager uses) creates a missing property and
  raises on a property of the other kind.
\<close>

datatype property = StringProp "string list" | IntProp "int list"

type_synonym props = "string \<Rightarrow> property option"

definition propertyExists :: "props \<Rightarrow> string \<Rightarrow> bool" where
  "propertyExists ps name = (ps name \<noteq> None)"

definition getStringProperty :: "props \<Rightarrow> string \<Rightarrow> exn + string list" where
  "getStringProperty ps name =
     (case ps name of Some (StringProp vs) \<Rightarrow> Inr vs | _ \<Rightarrow> Inl Exception)"

definition getIntProperty :: "props \<Rightarrow> string \<Rightarrow> exn + int list" where
  "getIntProperty ps name =
     (case ps name of Some (IntProp vs) \<Rightarrow> Inr vs | _ \<Rightarrow> Inl Exception)"

definition setStringProperty :: "props \<Rightarrow> string \<Rightarrow> string list \<Rightarrow> exn + props" where
  "setStringProperty ps name vs =
     (case ps name of Some (IntProp _) \<Rightarrow> Inl Exception
                    | _ \<Rightarrow> Inr (ps(name \<mapsto> StringProp vs)))"

definition setIntProperty :: "props \<Rightarrow> string \<Rightarrow> int list \<Rightarrow> exn + props" where
  "setIntProperty ps name vs =
     (case ps name of Some (StringProp _) \<Rightarrow> Inl Exception
                    | _ \<Rightarrow> Inr (ps(name \<mapsto> IntProp vs)))"

section \<open>Sort/expand state store\<close>

definition isExpandedInParent :: "props \<Rightarrow> node \<Rightarrow> string \<Rightarrow> bool" where
  "isExpandedInParent ps node parent =
     (let propName = node @ ''.sm_state.expandState''
      in if propertyExists ps propName
         then (case getStringProperty ps propName of
                 Inr p \<Rightarrow> parent \<in> set p
               | Inl _ \<Rightarrow> False)
         else False)"

definition setExpandedInParent :: "props \<Rightarrow> node \<Rightarrow> string \<Rightarrow> bool \<Rightarrow> props" where
  "setExpandedInParent ps node parent expanded =
     (let propName = node @ ''.sm_state.expandState''
      in if propertyExists ps propName
         then (case getStringProperty ps propName of
                 Inl _ \<Rightarrow> ps
               | Inr p \<Rightarrow>
                   (let hasNode = (parent \<in> set p)
                    in if hasNode \<and> \<not> expanded
                       then except_pass ps (setStringProperty ps propName (remove p parent))
                       else if \<not> hasNode \<and> expanded
                       then except_pass ps (setStringProperty ps propName (p @ [parent]))
                       else ps))
         else except_pass ps (setStringProperty ps propName [parent]))"

definition undefinedKey :: int where
  "undefinedKey = 2147483547"

definition INT_MAX :: int where
  "INT_MAX = 2147483647"

definition sortKeyInParent :: "props \<Rightarrow> node \<Rightarrow> string \<Rightarrow> int" where
  "sortKeyInParent ps node parent =
     (let propNameParent = node @ ''.sm_state.sortKeyParent'';
          propNameKey = node @ ''.sm_state.sortKey''
      in if propertyExists ps propNameParent \<and> propertyExists ps propNameKey
         then (case getStringProperty ps propNameParent of
                 Inl _ \<Rightarrow> undefinedKey
               | Inr p \<Rightarrow>
                   (case getIntProperty ps propNameKey of
                      Inl _ \<Rightarrow> undefinedKey
                    | Inr keys \<Rightarrow>
                        (let i = indexOf p parent
                         in if i = - 1 \<or> length keys \<noteq> length p then undefinedKey
                            else (case list_get keys i of
                                    Inl _ \<Rightarrow> undefinedKey
                                  | Inr k \<Rightarrow> k))))
         else undefinedKey)"

text \<open>The two writes of a fresh or appended entry: the parent array first, then the key
  array; an exception in the second leaves the first written.\<close>

definition write_sort_arrays ::
  "props \<Rightarrow> string \<Rightarrow> string \<Rightarrow> string list \<Rightarrow> int list \<Rightarrow> props" where
  "write_sort_arrays ps propNameParent propNameKey p keys =
     (case setStringProperty ps propNameParent p of
        Inl _ \<Rightarrow> ps
      | Inr ps1 \<Rightarrow> except_pass ps1 (setIntProperty ps1 propNameKey keys))"

definition setSortKeyInParent :: "props \<Rightarrow> node \<Rightarrow> string \<Rightarrow> int \<Rightarrow> props" where
  "setSortKeyInParent ps node parent v =
     (let propNameParent = node @ ''.sm_state.sortKeyParent'';
          propNameKey = node @ ''.sm_state.sortKey'';
          fresh = write_sort_arrays ps propNameParent propNameKey [parent] [v]
      in if propertyExists ps propNameParent \<and> propertyExists ps propNameKey
         then (case getStringProperty ps propNameParent of
                 Inl _ \<Rightarrow> ps
               | Inr p \<Rightarrow>
                   (case getIntProperty ps propNameKey of
                      Inl _ \<Rightarrow> ps
                    | Inr keys \<Rightarrow>
                        (let i = indexOf p parent
                         in if length p = length keys
                            then (if i = - 1
                                  then write_sort_arrays ps propNameParent propNameKey
                                         (p @ [parent]) (keys @ [v])
                                  else (case list_set keys i v of
                                          Inl _ \<Rightarrow> ps
                                        | Inr keys' \<Rightarrow>
                                            except_pass ps (setIntProperty ps propNameKey keys')))
                            else fresh)))
         else fresh)"

text \<open>The kinds this code itself gives its two sort properties: the parent array is never
  an int array, the key array never a string array.\<close>

definition sort_props_typed :: "props \<Rightarrow> node \<Rightarrow> bool" where
  "sort_props_typed ps node =
     ((case ps (node @ ''.sm_state.sortKeyParent'') of Some (IntProp _) \<Rightarrow> False | _ \<Rightarrow> True) \<and>
      (case ps (node @ ''.sm_state.sortKey'') of Some (StringProp _) \<Rightarrow> False | _ \<Rightarrow> True))"

text \<open>A run of the store from the empty session: a list of (node, parent, key) writes.\<close>

definition set_all :: "props \<Rightarrow> (node \<times> string \<times> int) list \<Rightarrow> props" where
  "set_all ps ws = foldl (\<lambda>s (n, p, k). setSortKeyInParent s n p k) ps ws"

section \<open>The node graph of the graph facade\<close>

text \<open>
  Modelled from the spec: the node and connection commands of the host application
  (\<^verbatim>\<open>rv.commands\<close>) are not among the sources. From the spec's interface:
  \<^verbatim>\<open>nodeExists(id) -> bool\<close>, \<^verbatim>\<open>nodeType(id) -> tag\<close>, \<^verbatim>\<open>deleteNode(id)\<close>,
  \<^verbatim>\<open>connections(id) -> (inputs, outputs)\<close> with ordered lists, and the pair of a
  pre-check and a commit behind \<^verbatim>\<open>setInputs\<close>. A graph is the list of its nodes, their
  type tags and their ordered input lists; the outputs of a node are the nodes that list
  it as an input. A command on a node that does not exist raises. Deleting a node takes
  it out of every input list.
\<close>

record graph =
  g_nodes :: "node list"
  g_type :: "node \<Rightarrow> string"
  g_inputs :: "node \<Rightarrow> node list"

definition nodeExists :: "graph \<Rightarrow> node \<Rightarrow> bool" where
  "nodeExists g n = (n \<in> set (g_nodes g))"

definition nodeType :: "graph \<Rightarrow> node \<Rightarrow> exn + string" where
  "nodeType g n = (if nodeExists g n then Inr (g_type g n) else Inl Exception)"

definition g_outputs :: "graph \<Rightarrow> node \<Rightarrow> node list" where
  "g_outputs g n = [m \<leftarrow> g_nodes g. n \<in> set (g_inputs g m)]"

definition nodeConnections :: "graph \<Rightarrow> node \<Rightarrow> exn + (node list \<times> node list)" where
  "nodeConnections g n =
     (if nodeExists g n then Inr (g_inputs g n, g_outputs g n) else Inl Exception)"

definition setNodeInputs :: "graph \<Rightarrow> node \<Rightarrow> node list \<Rightarrow> exn + graph" where
  "setNodeInputs g n ins =
     (if nodeExists g n then Inr (g\<lparr>g_inputs := (g_inputs g)(n := ins)\<rparr>) else Inl Exception)"

definition deleteNode :: "graph \<Rightarrow> node \<Rightarrow> exn + graph" where
  "deleteNode g n =
     (if nodeExists g n
      then Inr (g\<lparr>g_nodes := removeAll n (g_nodes g),
                 g_inputs := (\<lambda>m. if m = n then [] else removeAll n (g_inputs g m))\<rparr>)
      else Inl Exception)"

text \<open>
  The pre-check \<^verbatim>\<open>commands.testNodeInputs(node, inputs)\<close> is a parameter of the model: it
  returns no message (the inputs are allowed), a rejection message, or raises.
\<close>

type_synonym tester = "graph \<Rightarrow> node \<Rightarrow> node list \<Rightarrow> exn + string option"

section \<open>The session manager's state\<close>

text \<open>
  The calls that change the graph or reach the user are logged in the order they are made.
\<close>

datatype call =
    AlertPanel string
  | SetNodeInputs node "node list"
  | DeleteNode node
  | SetUIName node string

datatype drop_action = IgnoreAction | CopyAction | MoveAction | LinkAction

text \<open>
  A \<^verbatim>\<open>QStandardItem\<close> of the tree or of the inputs list: its data under the node,
  parent-node and sub-component roles, its text, and the node of its parent item (\<open>None\<close>
  for an item without a parent item).
\<close>

record item =
  item_node :: node
  item_parent_node :: "string option"
  item_subtype :: nat
  item_text :: string
  item_parent :: "node option"

text \<open>
  The fields of \<^verbatim>\<open>SessionManagerMode\<close> and of its \<^verbatim>\<open>NodeTreeView\<close> that the modelled
  methods read or write, with the graph they act on and the view node of the host
  application (\<^verbatim>\<open>commands.viewNode()\<close>). \<open>inputsModel\<close> is column 0 of the rows of the
  inputs list, \<open>None\<close> for a row without an item; \<open>lazySetInputsTimer\<close> says whether the
  single-shot timer of the inputs list is running.
\<close>

record session =
  graph :: graph
  calls :: "call list"
  dropAction :: drop_action
  draggedNodePaths :: "node list list"
  sortFolders :: "node list"
  disableUpdates :: bool
  viewNode :: "node option"
  inputsModel :: "item option list"
  inputOrderLock :: bool
  progressiveLoadingInProgress :: bool
  lazySetInputsTimer :: bool

definition NotASubComponent :: nat where
  "NotASubComponent = 0"

definition itemNode :: "item \<Rightarrow> node" where
  "itemNode it = item_node it"

definition itemParentNode :: "item \<Rightarrow> string" where
  "itemParentNode it = (case item_parent_node it of None \<Rightarrow> [] | Some d \<Rightarrow> d)"

definition itemSubComponentType :: "item \<Rightarrow> nat" where
  "itemSubComponentType it = item_subtype it"

definition itemIsSubComponent :: "item \<Rightarrow> bool" where
  "itemIsSubComponent it = (item_subtype it \<noteq> 0)"

section \<open>Input-list edits\<close>

definition setInputs :: "tester \<Rightarrow> session \<Rightarrow> node \<Rightarrow> node list \<Rightarrow> bool \<times> session" where
  "setInputs T s node ins =
     (case T (graph s) node ins of
        Inl _ \<Rightarrow> (False, s)
      | Inr (Some msg) \<Rightarrow> (False, s\<lparr>calls := calls s @ [AlertPanel msg]\<rparr>)
      | Inr None \<Rightarrow>
          (case setNodeInputs (graph s) node ins of
             Inl _ \<Rightarrow> (False, s\<lparr>calls := calls s @ [SetNodeInputs node ins]\<rparr>)
           | Inr g' \<Rightarrow> (True, s\<lparr>graph := g', calls := calls s @ [SetNodeInputs node ins]\<rparr>)))"

definition removeInput :: "tester \<Rightarrow> session \<Rightarrow> node \<Rightarrow> node \<Rightarrow> bool \<times> session" where
  "removeInput T s node inputNode =
     (if node \<noteq> []
      then (case nodeConnections (graph s) node of
              Inl _ \<Rightarrow> (True, s)
            | Inr (ins, outs) \<Rightarrow> setInputs T s node [n \<leftarrow> ins. n \<noteq> inputNode])
      else (True, s))"

definition hasInput :: "session \<Rightarrow> node option \<Rightarrow> node \<Rightarrow> bool" where
  "hasInput s node inputNode =
     (case node of
        None \<Rightarrow> True
      | Some n \<Rightarrow>
          if n = [] then True
          else (case nodeConnections (graph s) n of
                  Inl _ \<Rightarrow> False
                | Inr (ins, outs) \<Rightarrow> inputNode \<in> set ins))"

definition addInput :: "tester \<Rightarrow> session \<Rightarrow> node \<Rightarrow> node \<Rightarrow> bool \<times> session" where
  "addInput T s node inputNode =
     (if nodeExists (graph s) node
      then (case nodeConnections (graph s) node of
              Inl _ \<Rightarrow> (True, s)
            | Inr (ins, outs) \<Rightarrow> setInputs T s node (ins @ [inputNode]))
      else (True, s))"

section \<open>Drag and drop\<close>

definition filteredDraggedPaths :: "session \<Rightarrow> (node list \<Rightarrow> bool) \<Rightarrow> node list list" where
  "filteredDraggedPaths s F = [path \<leftarrow> draggedNodePaths s. F path]"

text \<open>\<^verbatim>\<open>NodeTreeView.sortFolderChildren\<close> queues the folder; the zero-delay timer that later
  sorts the queued folders is not part of the model.\<close>

definition sortFolderChildren :: "session \<Rightarrow> node \<Rightarrow> session" where
  "sortFolderChildren s folder =
     (case nodeType (graph s) folder of
        Inl _ \<Rightarrow> s
      | Inr t \<Rightarrow>
          if t = ''RVFolderGroup''
          then (if folder \<notin> set (sortFolders s)
                then s\<lparr>sortFolders := sortFolders s @ [folder]\<rparr> else s)
          else s)"

text \<open>\<^verbatim>\<open>commands.nodeExists(parent)\<close> and \<^verbatim>\<open>commands.nodeType(parent) == "RVFolderGroup"\<close>
  where \<^verbatim>\<open>parent\<close> may be Python's \<^verbatim>\<open>None\<close>: no node has that name.\<close>

definition nodeExistsOpt :: "graph \<Rightarrow> node option \<Rightarrow> bool" where
  "nodeExistsOpt g parent = (case parent of None \<Rightarrow> False | Some p \<Rightarrow> nodeExists g p)"

definition parentIsFolder :: "graph \<Rightarrow> node option \<Rightarrow> bool" where
  "parentIsFolder g parent =
     (case parent of
        None \<Rightarrow> False
      | Some p \<Rightarrow> nodeExists g p \<and> nodeType g p = Inr ''RVFolderGroup'')"

text \<open>\<^verbatim>\<open>extra_commands.setUIName(node, text)\<close> raises on a node that does not exist.\<close>

definition setUIName :: "session \<Rightarrow> node \<Rightarrow> string \<Rightarrow> exn + session" where
  "setUIName s node txt =
     (if nodeExists (graph s) node
      then Inr (s\<lparr>calls := calls s @ [SetUIName node txt]\<rparr>) else Inl Exception)"

text \<open>One round of the loop over the dragged paths in the move branch.\<close>

definition move_path :: "tester \<Rightarrow> node option \<Rightarrow> session \<Rightarrow> node list \<Rightarrow> session" where
  "move_path T parent s path =
     (if length path > 1
      then (let n = path ! 0; p = path ! 1
            in if nodeExists (graph s) p \<and> (\<not> nodeExistsOpt (graph s) parent \<or> Some p \<noteq> parent)
               then snd (removeInput T s p n) else s)
      else s)"

definition viewItemChanged :: "tester \<Rightarrow> session \<Rightarrow> item \<Rightarrow> session \<times> item" where
  "viewItemChanged T s it =
     (let node = itemNode it;
          subType = itemSubComponentType it;
          parent = item_parent it;
          nodePaths = filteredDraggedPaths s (\<lambda>p. p \<noteq> [] \<and> p ! 0 = node)
      in if dropAction s = CopyAction
         then (if \<not> hasInput s parent node
               then (let s1 = (case parent of
                                 None \<Rightarrow> s
                               | Some p \<Rightarrow> snd (addInput T s p node));
                         it1 = it\<lparr>item_parent_node := parent\<rparr>;
                         s2 = (case parent of
                                 None \<Rightarrow> s1
                               | Some p \<Rightarrow>
                                   if p \<noteq> [] \<and> parentIsFolder (graph s1) parent
                                   then sortFolderChildren s1 p else s1)
                     in (s2, it1))
               else (s, it))
         else if dropAction s = MoveAction \<and> nodePaths \<noteq> []
         then (let parentExists = (case parent of
                           None \<Rightarrow> False
                         | Some p \<Rightarrow> if p \<noteq> [] then nodeExists (graph s) p else False);
                   s1 = (case parent of
                           None \<Rightarrow> s
                         | Some p \<Rightarrow>
                             if parentExists \<and> \<not> hasInput s parent node
                             then snd (addInput T s p node) else s);
                   it1 = it\<lparr>item_parent_node := (if parentExists then parent else Some [])\<rparr>;
                   s2 = foldl (move_path T parent) s1 nodePaths;
                   s3 = (case parent of
                           None \<Rightarrow> s2
                         | Some p \<Rightarrow>
                             if parentIsFolder (graph s2) parent
                             then sortFolderChildren s2 p else s2)
               in (s3, it1))
         else if node \<noteq> [] \<and> subType = NotASubComponent
         then (let s1 = s\<lparr>disableUpdates := True\<rparr>;
                   s2 = except_pass s1 (setUIName s1 node (item_text it))
               in (s2\<lparr>disableUpdates := False\<rparr>, it))
         else (s, it))"


text \<open>What the loop over the dragged paths keeps, for a node \<open>X\<close> moved from \<open>A\<close> to \<open>B\<close>
  out of the session \<open>s\<close>: the nodes of the graph, the input list of \<open>B\<close>, and the input
  list of \<open>A\<close> apart from \<open>X\<close>.\<close>

definition move_inv :: "session \<Rightarrow> node \<Rightarrow> node \<Rightarrow> node \<Rightarrow> node list \<Rightarrow> session \<Rightarrow> bool" where
  "move_inv s X A B insB t =
     (g_nodes (graph t) = g_nodes (graph s) \<and> g_inputs (graph t) B = insB \<and>
      [n \<leftarrow> g_inputs (graph t) A. n \<noteq> X] = [n \<leftarrow> g_inputs (graph s) A. n \<noteq> X])"

section \<open>The inputs list\<close>












section \<open>Deleting the selected items\<close>

text \<open>\<^verbatim>\<open>sum(1 for o in outs if commands.nodeType(o) == "RVFolderGroup")\<close>: an exception of
  \<^verbatim>\<open>nodeType\<close> leaves the sum.\<close>

fun count_folders :: "graph \<Rightarrow> node list \<Rightarrow> exn + nat" where
  "count_folders g [] = Inr 0"
| "count_folders g (out # outs) =
     (case nodeType g out of
        Inl e \<Rightarrow> Inl e
      | Inr t \<Rightarrow>
          (case count_folders g outs of
             Inl e \<Rightarrow> Inl e
           | Inr k \<Rightarrow> Inr (if t = ''RVFolderGroup'' then Suc k else k)))"

text \<open>The body of the loop of \<^verbatim>\<open>deleteViewableSlot\<close> for one selected item.\<close>

definition delete_item :: "tester \<Rightarrow> session \<Rightarrow> item \<Rightarrow> session" where
  "delete_item T s it =
     (let node = itemNode it; parent = itemParentNode it
      in case nodeConnections (graph s) node of
           Inl _ \<Rightarrow> s
         | Inr (ins, outs) \<Rightarrow>
             (case (if nodeExists (graph s) parent then nodeType (graph s) parent else Inr []) of
                Inl _ \<Rightarrow> s
              | Inr parentType \<Rightarrow>
                  (case count_folders (graph s) outs of
                     Inl _ \<Rightarrow> s
                   | Inr nfolders \<Rightarrow>
                       if parentType = ''RVFolderGroup'' \<and> nfolders > 1
                       then snd (removeInput T s parent node)
                       else (let s1 = s\<lparr>disableUpdates := True,
                                        calls := calls s @ [DeleteNode node]\<rparr>;
                                 s2 = (case deleteNode (graph s1) node of
                                         Inl _ \<Rightarrow> s1
                                       | Inr g' \<Rightarrow> s1\<lparr>graph := g'\<rparr>)
                             in s2\<lparr>disableUpdates := False\<rparr>))))"

definition deleteViewableSlot :: "tester \<Rightarrow> session \<Rightarrow> item list \<Rightarrow> session" where
  "deleteViewableSlot T s items = foldl (delete_item T) s items"

section \<open>Converting selected sub-components\<close>

text \<open>
  \<^verbatim>\<open>selectedConvertedSubComponents\<close> over the selected items of column 0. The method
  \<^verbatim>\<open>sourceFromSubComponent\<close> is the parameter \<open>F\<close>: it returns a node, or nothing, or
  raises, since its body calls \<^verbatim>\<open>addSourceVerbose\<close>, \<^verbatim>\<open>newNode\<close> and \<^verbatim>\<open>setNodeInputs\<close>
  outside any handler. The result is the list of nodes, or the exception that leaves the
  method, with the session as it is at that moment.
\<close>

fun selected_loop ::
  "(item \<Rightarrow> node \<Rightarrow> exn + node option) \<Rightarrow> session \<Rightarrow> node list \<Rightarrow> item list
     \<Rightarrow> (exn + node list) \<times> session" where
  "selected_loop F s nodes [] = (Inr nodes, s)"
| "selected_loop F s nodes (it # its) =
     (let n = itemNode it
      in if nodeExists (graph s) n
         then (if itemIsSubComponent it
               then (let s1 = s\<lparr>disableUpdates := True\<rparr>
                     in case F it n of
                          Inl e \<Rightarrow> (Inl e, s1)
                        | Inr snode \<Rightarrow>
                            (let s2 = s1\<lparr>disableUpdates := False\<rparr>
                             in case snode of
                                  None \<Rightarrow> selected_loop F s2 nodes its
                                | Some sn \<Rightarrow>
                                    if sn \<noteq> [] then selected_loop F s2 (nodes @ [sn]) its
                                    else selected_loop F s2 nodes its))
               else selected_loop F s (nodes @ [n]) its)
         else selected_loop F s nodes its)"

definition selectedConvertedSubComponents ::
  "(item \<Rightarrow> node \<Rightarrow> exn + node option) \<Rightarrow> session \<Rightarrow> item list
     \<Rightarrow> (exn + node list) \<times> session" where
  "selectedConvertedSubComponents F s items = selected_loop F s [] items"

section \<open>Transform manipulation: the edit nodes\<close>

record edit_node_pair =
  tformNode :: node
  inputNode :: node

record manip =
  editNodes :: "edit_node_pair list"
  tags :: props

text \<open>
  Modelled from the spec: \<^verbatim>\<open>commands.newProperty(name, StringType, 1)\<close> is a command of
  the host application; it creates a string property, and raises when the property exists.
\<close>

definition newProperty :: "props \<Rightarrow> string \<Rightarrow> exn + props" where
  "newProperty ps name =
     (if propertyExists ps name then Inl Exception else Inr (ps(name \<mapsto> StringProp [])))"

definition setStringTagProperty :: "props \<Rightarrow> string \<Rightarrow> string \<Rightarrow> props" where
  "setStringTagProperty ps propName v =
     (if \<not> propertyExists ps propName
      then (case newProperty ps propName of
              Inl _ \<Rightarrow> ps
            | Inr ps1 \<Rightarrow> except_pass ps1 (setStringProperty ps1 propName [v]))
      else except_pass ps (setStringProperty ps propName [v]))"

text \<open>One round of the loop of \<^verbatim>\<open>findEditingNodes\<close>, for the node of \<^verbatim>\<open>infos[i]\<close> and
  the input \<^verbatim>\<open>ins[i]\<close>.\<close>

definition edit_step :: "bool \<Rightarrow> manip \<Rightarrow> node \<times> node \<Rightarrow> manip" where
  "edit_step setStates m ni =
     (let node = fst ni;
          pname = node @ ''.tag.tmanip'';
          sname = node @ ''.tag.tmanip_state'';
          m1 = m\<lparr>editNodes := editNodes m @ [\<lparr>tformNode = node, inputNode = snd ni\<rparr>]\<rparr>
      in if setStates \<or> \<not> propertyExists (tags m1) pname
         then m1\<lparr>tags := setStringTagProperty (setStringTagProperty (tags m1) pname node) sname []\<rparr>
         else m1)"

text \<open>
  \<^verbatim>\<open>findEditingNodes\<close>: \<open>vnode\<close> is the result of \<^verbatim>\<open>commands.viewNode()\<close> and \<open>infos\<close> the
  result of \<^verbatim>\<open>commands.metaEvaluateClosestByType(frame, "RVTransform2D")\<close>, as the nodes of
  the returned records, or its exception.
\<close>

definition findEditingNodes ::
  "graph \<Rightarrow> node option \<Rightarrow> exn + node list \<Rightarrow> bool \<Rightarrow> manip \<Rightarrow> manip" where
  "findEditingNodes g vnode infos setStates m =
     (case vnode of
        None \<Rightarrow> m\<lparr>editNodes := []\<rparr>
      | Some v \<Rightarrow>
          (case infos of
             Inl _ \<Rightarrow> m\<lparr>editNodes := []\<rparr>
           | Inr infos' \<Rightarrow>
               (case nodeConnections g v of
                  Inl _ \<Rightarrow> m\<lparr>editNodes := []\<rparr>
                | Inr (ins, outs) \<Rightarrow>
                    (let m0 = m\<lparr>editNodes := []\<rparr>
                     in if length infos' \<noteq> length ins then m0
                        else foldl (edit_step setStates) m0 (zip infos' ins)))))"


section \<open>Transform manipulation: the scale written by a drag\<close>

text \<open>
  Python floats are IEEE binary64 numbers, and \<^verbatim>\<open>*\<close> and \<^verbatim>\<open>/\<close> round the exact result
  to the nearest of them, ties to the even mantissa. A double that is zero or normal is a
  pair \<open>(m, e)\<close> of integers with the value \<open>m * 2 ^ e\<close>: the pair \<open>(0, 0)\<close>, or a mantissa
  of 53 bits, \<open>2 ^ 52 \<le> \<bar>m\<bar> < 2 ^ 53\<close>, with \<open>- 1074 \<le> e \<le> 971\<close>. Subnormal numbers,
  infinities and NaN are not in the model, and neither is the sign of zero: an operation
  whose rounded result is not zero or normal gives \<open>None\<close>.
\<close>

type_synonym double = "int \<times> int"


definition dval :: "double \<Rightarrow> real" where
  "dval d = (case d of (m, e) \<Rightarrow> of_int m * 2 powi e)"

text \<open>The integer nearest to \<open>n / d\<close> for \<open>d > 0\<close>, the even one of two that are equally
  near.\<close>

definition round_half_even :: "int \<Rightarrow> int \<Rightarrow> int" where
  "round_half_even n d =
     (let q = n div d; r = n mod d
      in if 2 * r < d then q else if d < 2 * r then q + 1 else if even q then q else q + 1)"

text \<open>
  The double of sign \<open>sg\<close> whose mantissa is \<open>n / d\<close> rounded, at the exponent \<open>e\<close>, for
  \<open>2 ^ 52 \<le> n / d \<le> 2 ^ 53\<close>: a mantissa rounded up to \<open>2 ^ 53\<close> is \<open>2 ^ 52\<close> at the next
  exponent, and an exponent out of the normal range leaves the model.
\<close>

definition round_normal :: "int \<Rightarrow> int \<Rightarrow> int \<Rightarrow> int \<Rightarrow> double option" where
  "round_normal sg n d e =
     (let r = round_half_even n d;
          r' = (if r = 2 ^ 53 then 2 ^ 52 else r);
          e' = (if r = 2 ^ 53 then e + 1 else e)
      in if - 1074 \<le> e' \<and> e' \<le> 971 then Some (sg * r', e') else None)"

text \<open>\<^verbatim>\<open>a * b\<close>: the product of two 53-bit mantissas has 105 or 106 bits.\<close>

definition fmul :: "double \<Rightarrow> double \<Rightarrow> double option" where
  "fmul a b =
     (case a of (m1, e1) \<Rightarrow> case b of (m2, e2) \<Rightarrow>
        if m1 = 0 \<or> m2 = 0 then Some (0, 0)
        else (let p = \<bar>m1\<bar> * \<bar>m2\<bar>; sg = sgn m1 * sgn m2
              in if p < 2 ^ 105 then round_normal sg p (2 ^ 52) (e1 + e2 + 52)
                 else round_normal sg p (2 ^ 53) (e1 + e2 + 53)))"

text \<open>\<^verbatim>\<open>a / b\<close>: the quotient of two 53-bit mantissas lies between a half and two. Python
  raises ZeroDivisionError for a zero divisor, which is \<open>None\<close> here as well; the drag
  handler divides only after it has tested the divisor.\<close>

definition fdiv :: "double \<Rightarrow> double \<Rightarrow> double option" where
  "fdiv a b =
     (case a of (m1, e1) \<Rightarrow> case b of (m2, e2) \<Rightarrow>
        if m2 = 0 then None
        else if m1 = 0 then Some (0, 0)
        else (let sg = sgn m1 * sgn m2
              in if \<bar>m2\<bar> \<le> \<bar>m1\<bar> then round_normal sg (\<bar>m1\<bar> * 2 ^ 52) \<bar>m2\<bar> (e1 - e2 - 52)
                 else round_normal sg (\<bar>m1\<bar> * 2 ^ 53) \<bar>m2\<bar> (e1 - e2 - 53)))"

text \<open>\<^verbatim>\<open>a < b\<close>, and \<^verbatim>\<open>max(a, b)\<close>, which is \<open>a\<close> unless \<open>b\<close> is greater.\<close>

definition fless :: "double \<Rightarrow> double \<Rightarrow> bool" where
  "fless a b =
     (case a of (m1, e1) \<Rightarrow> case b of (m2, e2) \<Rightarrow>
        if e1 \<le> e2 then m1 < m2 * 2 ^ nat (e2 - e1) else m1 * 2 ^ nat (e1 - e2) < m2)"

definition fmax :: "double \<Rightarrow> double \<Rightarrow> double" where
  "fmax a b = (if fless a b then b else a)"

text \<open>The literal \<^verbatim>\<open>0.01\<close>: the double nearest to 1/100, which is \<^verbatim>\<open>1.0 / 100.0\<close>.\<close>

definition d_0_01 :: double where
  "d_0_01 = (5764607523034235, - 59)"

text \<open>
  The last statements of \<^verbatim>\<open>TransformManip.drag\<close> for a corner control, from the prior
  scale \<open>(sx, sy)\<close> read from the property and the factor \<open>scl\<close> that the handler has
  computed from the pointer and the corner geometry:
  \<^verbatim>\<open>newscale = max(scale[0] * scl, 0.01)\<close> and the pair
  \<^verbatim>\<open>[newscale, scale[1] * newscale / scale[0] if scale[0] != 0 else newscale]\<close> handed to
  \<^verbatim>\<open>setFloatProperty\<close>. The result is the pair written.
\<close>

definition drag_scale :: "double \<Rightarrow> double \<Rightarrow> double \<Rightarrow> (double \<times> double) option" where
  "drag_scale sx sy scl =
     (case fmul sx scl of
        None \<Rightarrow> None
      | Some p \<Rightarrow>
          (let newscale = fmax p d_0_01
           in if fst sx \<noteq> 0
              then (case fmul sy newscale of
                      None \<Rightarrow> None
                    | Some q \<Rightarrow>
                        (case fdiv q sx of
                           None \<Rightarrow> None
                         | Some y \<Rightarrow> Some (newscale, y)))
              else Some (newscale, newscale)))"

text \<open>The doubles of the literals \<^verbatim>\<open>0.1\<close>, \<^verbatim>\<open>1.1\<close> and \<^verbatim>\<open>1.0\<close>, for the examples.\<close>

definition d_0_1 :: double where
  "d_0_1 = (7205759403792794, - 56)"

definition d_1_1 :: double where
  "d_1_1 = (4953959590107546, - 52)"

definition d_1_0 :: double where
  "d_1_0 = (4503599627370496, - 52)"

section \<open>A small session for the examples\<close>

text \<open>Two folders \<open>A\<close> and \<open>B\<close> and a source group \<open>X\<close>; \<open>X\<close> is an input of \<open>A\<close>.\<close>

definition example_graph :: graph where
  "example_graph =
     \<lparr>g_nodes = [''A'', ''B'', ''X''],
      g_type = (\<lambda>n. if n = ''X'' then ''RVSourceGroup'' else ''RVFolderGroup''),
      g_inputs = (\<lambda>n. if n = ''A'' then [''X''] else [])\<rparr>"

text \<open>The same nodes, with \<open>X\<close> an input of both folders.\<close>

definition shared_graph :: graph where
  "shared_graph = example_graph\<lparr>g_inputs := (\<lambda>n. if n = ''A'' \<or> n = ''B'' then [''X''] else [])\<rparr>"

text \<open>The session while \<open>X\<close> is dropped after a drag out of \<open>A\<close>, and the item of \<open>X\<close>,
  now under the item of \<open>B\<close>.\<close>

definition example_session :: "drop_action \<Rightarrow> graph \<Rightarrow> session" where
  "example_session a g =
     \<lparr>graph = g, calls = [], dropAction = a, draggedNodePaths = [[''X'', ''A'', []]],
      sortFolders = [], disableUpdates = False, viewNode = Some ''B'', inputsModel = [],
      inputOrderLock = False, progressiveLoadingInProgress = False,
      lazySetInputsTimer = False\<rparr>"

definition example_item :: item where
  "example_item =
     \<lparr>item_node = ''X'', item_parent_node = Some ''A'', item_subtype = 0,
      item_text = ''X'', item_parent = Some ''B''\<rparr>"

text \<open>The item of a layer of \<open>X\<close>: a sub-component.\<close>

definition example_layer_item :: item where
  "example_layer_item = example_item\<lparr>item_subtype := 3, item_text := ''diffuse''\<rparr>"

text \<open>A pre-check that allows every input list, and one that refuses every input list of
  \<open>B\<close>.\<close>

definition accept_all :: tester where
  "accept_all g n ins = Inr None"

definition reject_B :: tester where
  "reject_B g n ins = (if n = ''B'' then Inr (Some ''cycle'') else Inr None)"

section \<open>Facts about the Python helpers\<close>

lemma exn_eq [simp]: "(e::exn) = e'"
  by (cases e, cases e') simp

lemma list_index_Inl: "(list_index xs v = Inl e) = (v \<notin> set xs)"
  by (induction xs) (auto split: sum.splits)

lemma list_index_Inr: "list_index xs v = Inr i \<Longrightarrow> i < length xs \<and> xs ! i = v"
  by (induction xs arbitrary: i) (auto split: sum.splits if_splits)

lemma list_index_append_in: "v \<in> set xs \<Longrightarrow> list_index (xs @ ys) v = list_index xs v"
  by (induction xs) (auto split: sum.splits)

lemma list_index_append_new: "v \<notin> set xs \<Longrightarrow> list_index (xs @ [v]) v = Inr (length xs)"
  by (induction xs) (auto split: sum.splits)

lemma list_index_cases:
  "(v \<notin> set xs \<and> list_index xs v = Inl Exception) \<or>
   (v \<in> set xs \<and> (\<exists>i. list_index xs v = Inr i \<and> i < length xs \<and> xs ! i = v))"
  by (cases "list_index xs v") (auto simp: list_index_Inl dest: list_index_Inr)

lemma indexOf_notin: "(indexOf xs v = - 1) = (v \<notin> set xs)"
  using list_index_cases [of v xs] by (auto simp: indexOf_def)

lemma indexOf_in: "v \<in> set xs \<Longrightarrow> 0 \<le> indexOf xs v \<and> nat (indexOf xs v) < length xs \<and> xs ! nat (indexOf xs v) = v"
  using list_index_cases [of v xs] by (auto simp: indexOf_def)

lemma indexOf_append_in: "v \<in> set xs \<Longrightarrow> indexOf (xs @ ys) v = indexOf xs v"
  by (simp add: indexOf_def list_index_append_in)

lemma indexOf_append_new: "v \<notin> set xs \<Longrightarrow> indexOf (xs @ [v]) v = int (length xs)"
  by (simp add: indexOf_def list_index_append_new)

lemma indexOf_distinct:
  "p \<in> set P \<Longrightarrow> q \<in> set P \<Longrightarrow> q \<noteq> p \<Longrightarrow> nat (indexOf P q) \<noteq> nat (indexOf P p)"
  using indexOf_in [of p P] indexOf_in [of q P] by auto

lemma list_get_in: "0 \<le> i \<Longrightarrow> nat i < length xs \<Longrightarrow> list_get xs i = Inr (xs ! nat i)"
  by (simp add: list_get_def py_index_def)

lemma list_set_in: "0 \<le> i \<Longrightarrow> nat i < length xs \<Longrightarrow> list_set xs i v = Inr (xs[nat i := v])"
  by (simp add: list_set_def py_index_def)

section \<open>Sub-component hash keys\<close>

text \<open>
  C3. The hash of a (media, view, layer) triple is a function of the triple: equal triples
  give equal strings. Two triples that agree except that view, or layer, or both, are
  \<^verbatim>\<open>None\<close> in one and the empty string in the other give different strings: the empty
  string is written as \<^verbatim>\<open>@.\<close> after a separator that \<^verbatim>\<open>None\<close> leaves bare.
\<close>

theorem hashedSubComponent_none_vs_empty:
  "(m = m' \<and> v = v' \<and> l = l' \<longrightarrow>
      hashedSubComponent m v l = hashedSubComponent m' v' l') \<and>
   hashedSubComponent m None l \<noteq> hashedSubComponent m (Some []) l \<and>
   hashedSubComponent m v None \<noteq> hashedSubComponent m v (Some []) \<and>
   hashedSubComponent m None None \<noteq> hashedSubComponent m (Some []) (Some []) \<and>
   hashedSubComponent m None (Some []) \<noteq> hashedSubComponent m (Some []) None"
proof -
  have "hashedSubComponent m None l \<noteq> hashedSubComponent m (Some []) l"
    by (cases l) (auto simp: hashedSubComponent_def)
  moreover have "hashedSubComponent m v None \<noteq> hashedSubComponent m v (Some [])"
    by (cases v) (auto simp: hashedSubComponent_def)
  moreover have "hashedSubComponent m None None \<noteq> hashedSubComponent m (Some []) (Some [])"
    by (simp add: hashedSubComponent_def)
  moreover have "hashedSubComponent m None (Some []) \<noteq> hashedSubComponent m (Some []) None"
    by (simp add: hashedSubComponent_def)
  ultimately show ?thesis by simp
qed

text \<open>The example of the spec: \<^verbatim>\<open>hash("a.mov", None, None) != hash("a.mov", "", None)\<close>.\<close>

theorem hashedSubComponent_witness:
  "hashedSubComponent ''a.mov'' None None \<noteq> hashedSubComponent ''a.mov'' (Some []) None \<and>
   hashedSubComponent ''a.mov'' None None \<noteq> hashedSubComponent ''a.mov'' None (Some [])"
  using hashedSubComponent_none_vs_empty [of "''a.mov''" "''a.mov''" None None None None]
  by simp

section \<open>Sort keys\<close>

text \<open>The two property paths of a node differ, and differ from those of every other node.\<close>

lemma suffix_last: "s1 \<noteq> [] \<Longrightarrow> s2 \<noteq> [] \<Longrightarrow> n @ s1 = n' @ s2 \<Longrightarrow> last s1 = last s2"
  by (metis last_appendR)

lemma names_cross: "n @ ''.sm_state.sortKeyParent'' \<noteq> n' @ ''.sm_state.sortKey''"
  using suffix_last [of "''.sm_state.sortKeyParent''" "''.sm_state.sortKey''" n n'] by auto

text \<open>What \<^verbatim>\<open>sortKeyInParent\<close> reads and what \<^verbatim>\<open>setSortKeyInParent\<close> writes, by the
  contents of the two properties.\<close>

lemma sortKey_char:
  "sortKeyInParent ps n p =
     (case ps (n @ ''.sm_state.sortKeyParent'') of
        Some (StringProp P) \<Rightarrow>
          (case ps (n @ ''.sm_state.sortKey'') of
             Some (IntProp K) \<Rightarrow>
               if p \<in> set P \<and> length K = length P then K ! nat (indexOf P p) else undefinedKey
           | _ \<Rightarrow> undefinedKey)
      | _ \<Rightarrow> undefinedKey)"
proof (cases "ps (n @ ''.sm_state.sortKeyParent'')")
  case None
  then show ?thesis by (simp add: sortKeyInParent_def Let_def propertyExists_def)
next
  case (Some a)
  note A = this
  show ?thesis
  proof (cases a)
    case (IntProp x)
    with A show ?thesis
      by (simp add: sortKeyInParent_def Let_def propertyExists_def getStringProperty_def)
  next
    case (StringProp P)
    note P = this
    show ?thesis
    proof (cases "ps (n @ ''.sm_state.sortKey'')")
      case None
      with A P show ?thesis by (simp add: sortKeyInParent_def propertyExists_def)
    next
      case (Some b)
      note B = this
      show ?thesis
      proof (cases b)
        case (StringProp y)
        with A P B show ?thesis
          by (simp add: sortKeyInParent_def Let_def propertyExists_def getStringProperty_def getIntProperty_def)
      next
        case (IntProp K)
        show ?thesis
        proof (cases "p \<in> set P \<and> length K = length P")
          case True
          then have "list_get K (indexOf P p) = Inr (K ! nat (indexOf P p))"
            using indexOf_in [of p P] by (simp add: list_get_in)
          with True A P B IntProp show ?thesis
            by (simp add: sortKeyInParent_def Let_def propertyExists_def getStringProperty_def
                getIntProperty_def indexOf_notin)
        next
          case False
          with A P B IntProp show ?thesis
            by (auto simp: sortKeyInParent_def Let_def propertyExists_def getStringProperty_def
                getIntProperty_def indexOf_notin)
        qed
      qed
    qed
  qed
qed

lemma sortKey_cong:
  "ps (n @ ''.sm_state.sortKeyParent'') = ps' (n @ ''.sm_state.sortKeyParent'') \<Longrightarrow>
   ps (n @ ''.sm_state.sortKey'') = ps' (n @ ''.sm_state.sortKey'') \<Longrightarrow>
   sortKeyInParent ps n p = sortKeyInParent ps' n p"
  by (simp add: sortKey_char split: option.splits property.splits)

lemma setString_frame: "name \<noteq> a \<Longrightarrow> except_pass ps (setStringProperty ps a vs) name = ps name"
  by (simp add: except_pass_def setStringProperty_def split: option.splits property.splits)

lemma setInt_frame: "name \<noteq> a \<Longrightarrow> except_pass ps (setIntProperty ps a vs) name = ps name"
  by (simp add: except_pass_def setIntProperty_def split: option.splits property.splits)

lemma write_sort_arrays_frame:
  "name \<noteq> a \<Longrightarrow> name \<noteq> b \<Longrightarrow> write_sort_arrays ps a b P K name = ps name"
proof -
  assume a: "name \<noteq> a" and b: "name \<noteq> b"
  show ?thesis
  proof (cases "setStringProperty ps a P")
    case (Inl e)
    then show ?thesis by (simp add: write_sort_arrays_def)
  next
    case (Inr ps1)
    then have "ps1 name = ps name"
      using setString_frame [OF a, of ps P] by (simp add: except_pass_def)
    with Inr show ?thesis
      using setInt_frame [OF b, of ps1 K] by (simp add: write_sort_arrays_def)
  qed
qed

lemma setSortKey_frame:
  "name \<noteq> n @ ''.sm_state.sortKeyParent'' \<Longrightarrow> name \<noteq> n @ ''.sm_state.sortKey'' \<Longrightarrow>
   setSortKeyInParent ps n p k name = ps name"
  by (simp add: setSortKeyInParent_def Let_def write_sort_arrays_frame setInt_frame
      split: sum.splits)

lemma write_sort_arrays_typed:
  assumes "sort_props_typed ps n"
  shows "write_sort_arrays ps (n @ ''.sm_state.sortKeyParent'') (n @ ''.sm_state.sortKey'') P K =
         ps(n @ ''.sm_state.sortKeyParent'' \<mapsto> StringProp P, n @ ''.sm_state.sortKey'' \<mapsto> IntProp K)"
  using assms
  by (auto simp: sort_props_typed_def write_sort_arrays_def setStringProperty_def
        setIntProperty_def except_pass_def split: option.splits property.splits)

lemma setSortKey_char:
  assumes T: "sort_props_typed ps n"
  shows "setSortKeyInParent ps n p k =
     (let nameP = n @ ''.sm_state.sortKeyParent''; nameK = n @ ''.sm_state.sortKey'';
          fresh = ps(nameP \<mapsto> StringProp [p], nameK \<mapsto> IntProp [k])
      in case ps nameP of
           Some (StringProp P) \<Rightarrow>
             (case ps nameK of
                Some (IntProp K) \<Rightarrow>
                  if length P = length K
                  then (if p \<in> set P then ps(nameK \<mapsto> IntProp (K[nat (indexOf P p) := k]))
                        else ps(nameP \<mapsto> StringProp (P @ [p]), nameK \<mapsto> IntProp (K @ [k])))
                  else fresh
              | _ \<Rightarrow> fresh)
         | _ \<Rightarrow> fresh)"
proof (cases "ps (n @ ''.sm_state.sortKeyParent'')")
  case None
  then show ?thesis
    by (simp add: setSortKeyInParent_def Let_def propertyExists_def write_sort_arrays_typed [OF T])
next
  case (Some a)
  note A = this
  from T A obtain P where P: "a = StringProp P"
    by (cases a) (auto simp: sort_props_typed_def)
  show ?thesis
  proof (cases "ps (n @ ''.sm_state.sortKey'')")
    case None
    with A P show ?thesis
      by (simp add: setSortKeyInParent_def Let_def propertyExists_def write_sort_arrays_typed [OF T])
  next
    case (Some b)
    note B = this
    from T B obtain K where K: "b = IntProp K"
      by (cases b) (auto simp: sort_props_typed_def)
    show ?thesis
    proof (cases "length P = length K")
      case False
      with A P B K show ?thesis
        by (simp add: setSortKeyInParent_def Let_def propertyExists_def
            getStringProperty_def getIntProperty_def write_sort_arrays_typed [OF T])
    next
      case True
      note L = this
      show ?thesis
      proof (cases "p \<in> set P")
        case False
        with A P B K L show ?thesis
          by (simp add: setSortKeyInParent_def Let_def propertyExists_def indexOf_notin
              getStringProperty_def getIntProperty_def write_sort_arrays_typed [OF T])
      next
        case True
        then have "list_set K (indexOf P p) k = Inr (K[nat (indexOf P p) := k])"
          using indexOf_in [of p P] L by (simp add: list_set_in)
        with True A P B K L show ?thesis
          by (simp add: setSortKeyInParent_def Let_def propertyExists_def indexOf_notin
              getStringProperty_def getIntProperty_def setIntProperty_def except_pass_def)
      qed
    qed
  qed
qed

lemma round_trip:
  assumes T: "sort_props_typed ps n"
  shows "sortKeyInParent (setSortKeyInParent ps n p k) n q =
         (if q = p then k else sortKeyInParent ps n q)"
proof (cases "ps (n @ ''.sm_state.sortKeyParent'')")
  case None
  then show ?thesis
    by (simp add: setSortKey_char [OF T] sortKey_char Let_def indexOf_def)
next
  case (Some a)
  note A = this
  from T A obtain P where P: "a = StringProp P"
    by (cases a) (auto simp: sort_props_typed_def)
  show ?thesis
  proof (cases "ps (n @ ''.sm_state.sortKey'')")
    case None
    with A P show ?thesis
      by (simp add: setSortKey_char [OF T] sortKey_char Let_def indexOf_def)
  next
    case (Some b)
    note B = this
    from T B obtain K where K: "b = IntProp K"
      by (cases b) (auto simp: sort_props_typed_def)
    show ?thesis
    proof (cases "length P = length K")
      case False
      with A P B K show ?thesis
        by (auto simp: setSortKey_char [OF T] sortKey_char Let_def indexOf_def)
    next
      case True
      note L = this
      show ?thesis
      proof (cases "p \<in> set P")
        case False
        with A P B K L show ?thesis
          using indexOf_in [of q P]
          by (auto simp: setSortKey_char [OF T] sortKey_char Let_def indexOf_append_new
              indexOf_append_in nth_append)
      next
        case True
        with A P B K L show ?thesis
          using indexOf_in [of p P] indexOf_in [of q P] indexOf_distinct [of p P q]
          by (auto simp: setSortKey_char [OF T] sortKey_char Let_def)
      qed
    qed
  qed
qed

text \<open>The kinds of the two properties are kept by every write, for every node, and hold in
  the empty store; a write for one node leaves the keys of the other nodes.\<close>

lemma typed_empty: "sort_props_typed Map.empty n"
  by (simp add: sort_props_typed_def)

lemma setSortKey_other_names:
  assumes "m \<noteq> n"
  shows "setSortKeyInParent ps n p k (m @ ''.sm_state.sortKeyParent'') = ps (m @ ''.sm_state.sortKeyParent'')"
    and "setSortKeyInParent ps n p k (m @ ''.sm_state.sortKey'') = ps (m @ ''.sm_state.sortKey'')"
  using assms names_cross [of m n] names_cross [of n m]
  by (simp_all add: setSortKey_frame)

lemma typed_preserved:
  assumes "\<And>m. sort_props_typed ps m"
  shows "sort_props_typed (setSortKeyInParent ps n p k) m"
proof (cases "m = n")
  case False
  then show ?thesis
    using assms [of m] by (simp add: sort_props_typed_def setSortKey_other_names)
next
  case True
  then show ?thesis
    using assms [of n]
    by (auto simp: setSortKey_char [OF assms] sort_props_typed_def Let_def
        split: option.splits property.splits)
qed

lemma other_node:
  "m \<noteq> n \<Longrightarrow> sortKeyInParent (setSortKeyInParent ps n p k) m q = sortKeyInParent ps m q"
  by (rule sortKey_cong) (simp_all add: setSortKey_other_names)

lemma set_all_Cons: "set_all ps ((n, p, k) # ws) = set_all (setSortKeyInParent ps n p k) ws"
  by (simp add: set_all_def)

lemma never_set:
  assumes "\<And>m. sort_props_typed ps m"
    and "(n, p) \<notin> (\<lambda>(a, b, c). (a, b)) ` set ws"
  shows "sortKeyInParent (set_all ps ws) n p = sortKeyInParent ps n p"
  using assms
proof (induction ws arbitrary: ps)
  case Nil
  then show ?case by (simp add: set_all_def)
next
  case (Cons w ws)
  obtain a b c where w: "w = (a, b, c)" by (cases w)
  have T: "\<And>m. sort_props_typed (setSortKeyInParent ps a b c) m"
    using Cons.prems(1) by (rule typed_preserved)
  have "sortKeyInParent (set_all (setSortKeyInParent ps a b c) ws) n p =
        sortKeyInParent (setSortKeyInParent ps a b c) n p"
    using Cons.prems(2) by (intro Cons.IH T) simp
  also have "\<dots> = sortKeyInParent ps n p"
  proof (cases "a = n")
    case True
    with Cons.prems(2) w have "p \<noteq> b" by auto
    with True show ?thesis by (simp add: round_trip [OF Cons.prems(1)])
  next
    case False
    then show ?thesis by (simp add: other_node)
  qed
  finally show ?case by (simp add: w set_all_Cons)
qed

text \<open>
  C5. After \<^verbatim>\<open>setSortKeyInParent(n, p, k)\<close>, \<^verbatim>\<open>sortKeyInParent(n, p)\<close> is \<open>k\<close>, for every
  integer \<open>k\<close>, and the key of \<open>n\<close> under every other parent reads as before, in every store
  whose two sort properties of \<open>n\<close>, where present, have the kinds this code writes. A
  (node, parent) pair that no write of a run from the empty store names reads as
  2147483547, which is \<open>INT_MAX - 100\<close>.
\<close>

theorem sortKey_round_trip:
  "(sort_props_typed ps n \<longrightarrow>
      sortKeyInParent (setSortKeyInParent ps n p k) n p = k \<and>
      (\<forall>q. q \<noteq> p \<longrightarrow>
         sortKeyInParent (setSortKeyInParent ps n p k) n q = sortKeyInParent ps n q)) \<and>
   ((n, p) \<notin> (\<lambda>(a, b, c). (a, b)) ` set ws \<longrightarrow>
      sortKeyInParent (set_all Map.empty ws) n p = 2147483547) \<and>
   undefinedKey = INT_MAX - 100"
proof -
  have "sortKeyInParent Map.empty n p = 2147483547"
    by (simp add: sortKey_char undefinedKey_def)
  then show ?thesis
    using never_set [of Map.empty n p ws]
    by (simp add: round_trip typed_empty undefinedKey_def INT_MAX_def)
qed

text \<open>A negative key, \<open>INT_MAX\<close> beside an older entry of another parent, and a pair never
  set.\<close>

theorem sortKey_round_trip_witness:
  "sortKeyInParent (setSortKeyInParent Map.empty ''n'' ''p'' (- 5)) ''n'' ''p'' = - 5 \<and>
   sortKeyInParent (setSortKeyInParent (setSortKeyInParent Map.empty ''n'' ''q'' 7) ''n'' ''p'' INT_MAX)
      ''n'' ''q'' = 7 \<and>
   sortKeyInParent (set_all Map.empty [(''n'', ''q'', 7)]) ''n'' ''p'' = 2147483547"
proof -
  have t0: "sort_props_typed Map.empty ''n''" by (simp add: sort_props_typed_def)
  have t1: "sort_props_typed (setSortKeyInParent Map.empty ''n'' ''q'' 7) ''n''"
    by (simp add: sort_props_typed_def setSortKeyInParent_def Let_def propertyExists_def
        write_sort_arrays_def setStringProperty_def setIntProperty_def except_pass_def)
  have a: "sortKeyInParent (setSortKeyInParent Map.empty ''n'' ''q'' 7) ''n'' ''q'' = 7"
    using sortKey_round_trip [of Map.empty "''n''" "''q''" 7 "[]"] t0 by simp
  show ?thesis
    using sortKey_round_trip [of Map.empty "''n''" "''p''" "- 5" "[(''n'', ''q'', 7)]"]
      sortKey_round_trip [of "setSortKeyInParent Map.empty ''n'' ''q'' 7" "''n''" "''p''" INT_MAX "[]"]
      t0 t1 a
    by simp
qed

section \<open>Expansion state\<close>

lemma expand_int_prop:
  "ps (n @ ''.sm_state.expandState'') = Some (IntProp x) \<Longrightarrow>
   setExpandedInParent ps n p b = ps \<and> \<not> isExpandedInParent ps n p"
  by (simp add: isExpandedInParent_def setExpandedInParent_def Let_def propertyExists_def
      getStringProperty_def)

lemma expand_true_member:
  "\<forall>x. ps (n @ ''.sm_state.expandState'') \<noteq> Some (IntProp x) \<Longrightarrow>
   \<exists>P. setExpandedInParent ps n p True (n @ ''.sm_state.expandState'') = Some (StringProp P) \<and>
       p \<in> set P"
proof (cases "ps (n @ ''.sm_state.expandState'')")
  case None
  then show ?thesis
    by (simp add: setExpandedInParent_def Let_def propertyExists_def setStringProperty_def
        except_pass_def)
next
  case (Some a)
  assume "\<forall>x. ps (n @ ''.sm_state.expandState'') \<noteq> Some (IntProp x)"
  with Some obtain P where P: "a = StringProp P" by (cases a) auto
  show ?thesis
  proof (cases "p \<in> set P")
    case True
    with Some P show ?thesis
      by (simp add: setExpandedInParent_def Let_def propertyExists_def getStringProperty_def)
  next
    case False
    with Some P show ?thesis
      by (simp add: setExpandedInParent_def Let_def propertyExists_def getStringProperty_def
          setStringProperty_def except_pass_def)
  qed
qed

lemma expand_true_again:
  "ps (n @ ''.sm_state.expandState'') = Some (StringProp P) \<Longrightarrow> p \<in> set P \<Longrightarrow>
   setExpandedInParent ps n p True = ps"
  by (simp add: setExpandedInParent_def Let_def propertyExists_def getStringProperty_def)

lemma expand_false_clears:
  "ps (n @ ''.sm_state.expandState'') = Some (StringProp P) \<Longrightarrow>
   \<not> isExpandedInParent (setExpandedInParent ps n p False) n p"
  by (cases "p \<in> set P")
     (simp_all add: isExpandedInParent_def setExpandedInParent_def Let_def propertyExists_def
        getStringProperty_def setStringProperty_def except_pass_def remove_def)

text \<open>Expanded twice, then collapsed once: not expanded, in every store.\<close>

lemma expand_true_true_false:
  "\<not> isExpandedInParent
        (setExpandedInParent (setExpandedInParent (setExpandedInParent ps n p True) n p True) n p False)
        n p"
proof (cases "\<exists>x. ps (n @ ''.sm_state.expandState'') = Some (IntProp x)")
  case True
  then show ?thesis by (auto simp: expand_int_prop)
next
  case False
  then obtain P where P:
    "setExpandedInParent ps n p True (n @ ''.sm_state.expandState'') = Some (StringProp P)"
    "p \<in> set P"
    using expand_true_member [of ps n p] by auto
  have "setExpandedInParent (setExpandedInParent ps n p True) n p True =
        setExpandedInParent ps n p True"
    using P by (rule expand_true_again)
  then show ?thesis
    using P(1) by (simp add: expand_false_clears)
qed

text \<open>Collapsing a parent the existing property does not list changes nothing.\<close>

lemma expand_false_unseen_existing:
  "ps (n @ ''.sm_state.expandState'') = Some (StringProp P) \<Longrightarrow> p \<notin> set P \<Longrightarrow>
   setExpandedInParent ps n p False = ps \<and> \<not> isExpandedInParent ps n p"
  by (simp add: isExpandedInParent_def setExpandedInParent_def Let_def propertyExists_def
      getStringProperty_def)

text \<open>Without the property, the branch that creates it does not look at \<open>expanded\<close>.\<close>

lemma expand_false_missing:
  "\<not> propertyExists ps (n @ ''.sm_state.expandState'') \<Longrightarrow>
   setExpandedInParent ps n p False = ps(n @ ''.sm_state.expandState'' \<mapsto> StringProp [p]) \<and>
   isExpandedInParent (setExpandedInParent ps n p False) n p"
  by (simp add: isExpandedInParent_def setExpandedInParent_def Let_def propertyExists_def
      getStringProperty_def setStringProperty_def except_pass_def)

text \<open>
  C6. \<^verbatim>\<open>setExpandedInParent(node, parent, False)\<close> on a node that has no expansion property
  yet: the call creates the property with \<open>parent\<close> in it, and \<^verbatim>\<open>isExpandedInParent\<close>, false
  before, is true after. The claim has the call change nothing and the answer stay false.
\<close>

theorem setExpanded_false_creates_entry:
  "\<not> isExpandedInParent Map.empty ''n'' ''p'' \<and>
   setExpandedInParent Map.empty ''n'' ''p'' False =
     [''n.sm_state.expandState'' \<mapsto> StringProp [''p'']] \<and>
   isExpandedInParent (setExpandedInParent Map.empty ''n'' ''p'' False) ''n'' ''p''"
  by (simp add: isExpandedInParent_def setExpandedInParent_def Let_def propertyExists_def
      getStringProperty_def setStringProperty_def except_pass_def)

section \<open>Validated input-list edits\<close>

lemma setInputs_graph_cases:
  "graph (snd (setInputs T s n ins)) = graph s \<or>
   (T (graph s) n ins = Inr None \<and> nodeExists (graph s) n \<and>
    graph (snd (setInputs T s n ins)) = (graph s)\<lparr>g_inputs := (g_inputs (graph s))(n := ins)\<rparr>)"
  by (auto simp: setInputs_def setNodeInputs_def split: sum.splits option.splits)

lemma setInputs_accepted:
  "T (graph s) n ins = Inr None \<Longrightarrow> nodeExists (graph s) n \<Longrightarrow>
   setInputs T s n ins =
     (True, s\<lparr>graph := (graph s)\<lparr>g_inputs := (g_inputs (graph s))(n := ins)\<rparr>,
              calls := calls s @ [SetNodeInputs n ins]\<rparr>)"
  by (simp add: setInputs_def setNodeInputs_def)

lemma setInputs_rejected:
  "T (graph s) n ins = Inr (Some msg) \<Longrightarrow>
   setInputs T s n ins = (False, s\<lparr>calls := calls s @ [AlertPanel msg]\<rparr>)"
  by (simp add: setInputs_def)


text \<open>
  C2. \<^verbatim>\<open>setInputs\<close> decides on the answer of the pre-check. On a rejection message it shows
  the alert with that message, makes no \<^verbatim>\<open>setNodeInputs\<close> call, leaves the graph as it is
  and returns \<^verbatim>\<open>False\<close>. On no message it calls \<^verbatim>\<open>setNodeInputs\<close>, and when that call
  returns, the graph is the one it produced and the result is \<^verbatim>\<open>True\<close>.
\<close>

theorem setInputs_validates:
  "(T (graph s) node ins = Inr (Some msg) \<longrightarrow>
      setInputs T s node ins = (False, s\<lparr>calls := calls s @ [AlertPanel msg]\<rparr>) \<and>
      graph (snd (setInputs T s node ins)) = graph s) \<and>
   (T (graph s) node ins = Inr None \<longrightarrow> setNodeInputs (graph s) node ins = Inr g' \<longrightarrow>
      setInputs T s node ins =
        (True, s\<lparr>graph := g', calls := calls s @ [SetNodeInputs node ins]\<rparr>))"
  by (auto simp: setInputs_def)

lemmas example_defs = example_graph_def shared_graph_def example_session_def example_item_def
  example_layer_item_def accept_all_def reject_B_def

lemmas run_defs = viewItemChanged_def Let_def itemNode_def itemParentNode_def
  itemSubComponentType_def itemIsSubComponent_def NotASubComponent_def
  filteredDraggedPaths_def hasInput_def addInput_def
  removeInput_def setInputs_def setNodeInputs_def nodeConnections_def nodeExists_def
  nodeExistsOpt_def parentIsFolder_def nodeType_def sortFolderChildren_def move_path_def
  g_outputs_def delete_item_def deleteNode_def setUIName_def except_pass_def

text \<open>Both answers of the pre-check, on the input list \<open>[X]\<close> for the folder \<open>B\<close>.\<close>

theorem setInputs_validates_witness:
  "setInputs reject_B (example_session IgnoreAction example_graph) ''B'' [''X''] =
     (False, (example_session IgnoreAction example_graph)\<lparr>calls := [AlertPanel ''cycle'']\<rparr>) \<and>
   setInputs accept_all (example_session IgnoreAction example_graph) ''B'' [''X''] =
     (True, (example_session IgnoreAction example_graph)
        \<lparr>graph := example_graph\<lparr>g_inputs := (g_inputs example_graph)(''B'' := [''X''])\<rparr>,
          calls := [SetNodeInputs ''B'' [''X'']]\<rparr>)"
  using
    setInputs_validates [where T = reject_B and s = "example_session IgnoreAction example_graph"
      and node = "''B''" and ins = "[''X'']" and msg = "''cycle''"]
    setInputs_validates [where T = accept_all and s = "example_session IgnoreAction example_graph"
      and node = "''B''" and ins = "[''X'']"
      and g' = "example_graph\<lparr>g_inputs := (g_inputs example_graph)(''B'' := [''X''])\<rparr>"]
  by (simp add: example_session_def reject_B_def accept_all_def setNodeInputs_def nodeExists_def
      example_graph_def)

section \<open>Drops\<close>

lemma sortFolderChildren_fields:
  "graph (sortFolderChildren s f) = graph s"
  "calls (sortFolderChildren s f) = calls s"
  "disableUpdates (sortFolderChildren s f) = disableUpdates s"
  by (auto simp: sortFolderChildren_def split: sum.splits)

lemma addInput_cases:
  "snd (addInput T s p x) = s \<or>
   (\<exists>msg. snd (addInput T s p x) = s\<lparr>calls := calls s @ [AlertPanel msg]\<rparr>) \<or>
   (nodeExists (graph s) p \<and> T (graph s) p (g_inputs (graph s) p @ [x]) = Inr None \<and>
    snd (addInput T s p x) =
      s\<lparr>graph := (graph s)\<lparr>g_inputs := (g_inputs (graph s))(p := g_inputs (graph s) p @ [x])\<rparr>,
        calls := calls s @ [SetNodeInputs p (g_inputs (graph s) p @ [x])]\<rparr>)"
  by (auto simp: addInput_def nodeConnections_def setInputs_def setNodeInputs_def
      split: sum.splits option.splits)

lemma addInput_accepted:
  "nodeExists (graph s) p \<Longrightarrow> T (graph s) p (g_inputs (graph s) p @ [x]) = Inr None \<Longrightarrow>
   graph (snd (addInput T s p x)) =
     (graph s)\<lparr>g_inputs := (g_inputs (graph s))(p := g_inputs (graph s) p @ [x])\<rparr>"
  by (simp add: addInput_def nodeConnections_def setInputs_accepted)

lemma hasInput_False:
  "\<not> hasInput s parent x \<Longrightarrow>
   \<exists>p. parent = Some p \<and> p \<noteq> [] \<and> (nodeExists (graph s) p \<longrightarrow> x \<notin> set (g_inputs (graph s) p))"
  by (auto simp: hasInput_def nodeConnections_def split: option.splits if_splits)

lemma hasInput_exists:
  "nodeExists (graph s) p \<Longrightarrow> p \<noteq> [] \<Longrightarrow> hasInput s (Some p) x = (x \<in> set (g_inputs (graph s) p))"
  by (simp add: hasInput_def nodeConnections_def)

lemma removeInput_graph_cases:
  "graph (snd (removeInput T s p x)) = graph s \<or>
   (p \<noteq> [] \<and> nodeExists (graph s) p \<and> T (graph s) p [n \<leftarrow> g_inputs (graph s) p. n \<noteq> x] = Inr None \<and>
    graph (snd (removeInput T s p x)) =
      (graph s)\<lparr>g_inputs := (g_inputs (graph s))(p := [n \<leftarrow> g_inputs (graph s) p. n \<noteq> x])\<rparr>)"
  using setInputs_graph_cases [of T s p "[n \<leftarrow> g_inputs (graph s) p. n \<noteq> x]"]
  by (auto simp: removeInput_def nodeConnections_def)

lemma removeInput_accepted:
  "p \<noteq> [] \<Longrightarrow> nodeExists (graph s) p \<Longrightarrow>
   T (graph s) p [n \<leftarrow> g_inputs (graph s) p. n \<noteq> x] = Inr None \<Longrightarrow>
   graph (snd (removeInput T s p x)) =
      (graph s)\<lparr>g_inputs := (g_inputs (graph s))(p := [n \<leftarrow> g_inputs (graph s) p. n \<noteq> x])\<rparr>"
  by (simp add: removeInput_def nodeConnections_def setInputs_accepted)

lemma removeInput_calls:
  "\<exists>cs. calls (snd (removeInput T s p x)) = calls s @ cs \<and>
     (\<forall>c \<in> set cs. (\<exists>msg. c = AlertPanel msg) \<or> (\<exists>n xs. c = SetNodeInputs n xs))"
  by (auto simp: removeInput_def setInputs_def split: sum.splits option.splits prod.splits)

text \<open>The loop over the dragged paths of a move to an existing parent \<open>B\<close>: each round
  leaves the graph or takes the dragged node out of the inputs of one node other than
  \<open>B\<close>.\<close>

lemma move_path_graph_cases:
  assumes "nodeExists (graph t) B"
  shows "graph (move_path T (Some B) t path) = graph t \<or>
     (\<exists>p. p \<noteq> B \<and> p \<noteq> [] \<and> length path > 1 \<and> p = path ! 1 \<and> nodeExists (graph t) p \<and>
        graph (move_path T (Some B) t path) =
          (graph t)\<lparr>g_inputs := (g_inputs (graph t))(p := [n \<leftarrow> g_inputs (graph t) p. n \<noteq> path ! 0])\<rparr>)"
  using assms removeInput_graph_cases [of T t "path ! 1" "path ! 0"]
  by (auto simp: move_path_def Let_def nodeExistsOpt_def)

lemma move_path_inv:
  assumes "move_inv s X A B insB t" "nodeExists (graph s) B" "path ! 0 = X"
  shows "move_inv s X A B insB (move_path T (Some B) t path)"
proof -
  have B: "nodeExists (graph t) B"
    using assms by (simp add: move_inv_def nodeExists_def)
  show ?thesis
    using move_path_graph_cases [OF B, of T path] assms
    by (auto simp: move_inv_def)
qed

lemma move_path_keeps_absent:
  assumes "X \<notin> set (g_inputs (graph t) A)" "nodeExists (graph t) B"
  shows "X \<notin> set (g_inputs (graph (move_path T (Some B) t path)) A)"
  using move_path_graph_cases [OF assms(2), of T path] assms(1)
  by (auto split: if_splits)

lemma move_path_removes_at:
  assumes I: "move_inv s X A B insB t"
    and ex: "nodeExists (graph s) A" "nodeExists (graph s) B" "A \<noteq> B" "A \<noteq> []"
    and acc: "T (graph t) A [n \<leftarrow> g_inputs (graph s) A. n \<noteq> X] = Inr None"
  shows "X \<notin> set (g_inputs (graph (move_path T (Some B) t (X # A # rest))) A)"
proof -
  have A: "nodeExists (graph t) A" and B: "nodeExists (graph t) B"
    using I ex by (simp_all add: move_inv_def nodeExists_def)
  have f: "[n \<leftarrow> g_inputs (graph t) A. n \<noteq> X] = [n \<leftarrow> g_inputs (graph s) A. n \<noteq> X]"
    using I by (simp add: move_inv_def)
  have "graph (snd (removeInput T t A X)) =
      (graph t)\<lparr>g_inputs := (g_inputs (graph t))(A := [n \<leftarrow> g_inputs (graph t) A. n \<noteq> X])\<rparr>"
    using A ex(4) acc f by (intro removeInput_accepted) simp_all
  then show ?thesis
    using A B ex(3) by (simp add: move_path_def Let_def nodeExistsOpt_def)
qed

lemma foldl_move_inv:
  assumes "nodeExists (graph s) B" "\<forall>q \<in> set paths. q ! 0 = X" "move_inv s X A B insB t"
  shows "move_inv s X A B insB (foldl (move_path T (Some B)) t paths)"
  using assms(2,3)
proof (induction paths arbitrary: t)
  case Nil
  then show ?case by simp
next
  case (Cons q qs)
  then show ?case
    using move_path_inv [OF _ assms(1), of X A insB t q T] by simp
qed

lemma foldl_keeps_absent:
  assumes "nodeExists (graph s) B" "\<forall>q \<in> set paths. q ! 0 = X" "move_inv s X A B insB t"
    and "X \<notin> set (g_inputs (graph t) A)"
  shows "X \<notin> set (g_inputs (graph (foldl (move_path T (Some B)) t paths)) A)"
  using assms(2,3,4)
proof (induction paths arbitrary: t)
  case Nil
  then show ?case by simp
next
  case (Cons q qs)
  have B: "nodeExists (graph t) B"
    using Cons.prems(2) assms(1) by (simp add: move_inv_def nodeExists_def)
  have "move_inv s X A B insB (move_path T (Some B) t q)"
    using Cons.prems move_path_inv [OF _ assms(1), of X A insB t q T] by simp
  moreover have "X \<notin> set (g_inputs (graph (move_path T (Some B) t q)) A)"
    using Cons.prems(3) B by (rule move_path_keeps_absent)
  ultimately show ?case
    using Cons.IH [of "move_path T (Some B) t q"] Cons.prems(1) by simp
qed

text \<open>
  C1, as amended. A node \<open>X\<close> dragged from the parent \<open>A\<close> (the dragged path
  \<open>X # A # rest\<close>) and dropped as a move under a different parent \<open>B\<close>, both existing,
  named nodes, with \<open>X\<close> at most once among the inputs of \<open>B\<close>. When the pre-check allows
  the two lists the move proposes, each at the graph at which it is proposed, then after
  \<^verbatim>\<open>viewItemChanged\<close> \<open>X\<close> is not among the inputs of \<open>A\<close> and is exactly once among the
  inputs of \<open>B\<close>. The list for \<open>B\<close>, its inputs with \<open>X\<close> appended, is proposed at the
  graph of the session and only when \<open>X\<close> is not yet an input of \<open>B\<close>; the list for \<open>A\<close>,
  its inputs without \<open>X\<close>, is proposed at the graph \<open>t\<close> that the earlier dragged paths
  of \<open>X\<close> have left.
\<close>

theorem move_reconciles:
  fixes T :: tester and s :: session and it :: item and X A B :: node
    and pre post :: "node list list"
  defines "s1 \<equiv> if X \<in> set (g_inputs (graph s) B) then s else snd (addInput T s B X)"
  defines "t \<equiv> foldl (move_path T (Some B)) s1 [p \<leftarrow> pre. p \<noteq> [] \<and> p ! 0 = X]"
  assumes M: "dropAction s = MoveAction"
    and P: "draggedNodePaths s = pre @ (X # A # rest) # post"
    and it: "item_node it = X" "item_parent it = Some B"
    and ex: "nodeExists (graph s) A" "nodeExists (graph s) B" "A \<noteq> B" "A \<noteq> []"
    and Bn: "B \<noteq> []"
    and once: "count_list (g_inputs (graph s) B) X \<le> 1"
    and accB: "X \<notin> set (g_inputs (graph s) B) \<longrightarrow>
                 T (graph s) B (g_inputs (graph s) B @ [X]) = Inr None"
    and accA: "T (graph t) A [n \<leftarrow> g_inputs (graph s) A. n \<noteq> X] = Inr None"
  shows "X \<notin> set (g_inputs (graph (fst (viewItemChanged T s it))) A) \<and>
         count_list (g_inputs (graph (fst (viewItemChanged T s it))) B) X = 1"
proof -
  let ?F = "\<lambda>p. p \<noteq> [] \<and> p ! 0 = X"
  let ?paths = "filteredDraggedPaths s ?F"
  let ?pre = "[p \<leftarrow> pre. ?F p]"
  let ?post = "[p \<leftarrow> post. ?F p]"
  let ?s2 = "foldl (move_path T (Some B)) s1 ?paths"
  have paths: "?paths = ?pre @ (X # A # rest) # ?post"
    using P by (simp add: filteredDraggedPaths_def)
  then have ne: "?paths \<noteq> []" by simp
  have allpre: "\<forall>q \<in> set ?pre. q ! 0 = X" and allpost: "\<forall>q \<in> set ?post. q ! 0 = X"
    by simp_all
  have s1': "s1 = (if \<not> hasInput s (Some B) X then snd (addInput T s B X) else s)"
    using ex(2) Bn by (simp add: s1_def hasInput_exists)
  have g1: "graph s1 = (graph s)\<lparr>g_inputs := (g_inputs (graph s))
              (B := if X \<in> set (g_inputs (graph s) B) then g_inputs (graph s) B
                    else g_inputs (graph s) B @ [X])\<rparr>"
    using ex(2) accB by (simp add: s1_def addInput_accepted)
  have cnt: "count_list (g_inputs (graph s1) B) X = 1"
  proof (cases "X \<in> set (g_inputs (graph s) B)")
    case True
    then have "count_list (g_inputs (graph s) B) X \<noteq> 0" by (simp add: count_list_0_iff)
    with once True show ?thesis by (simp add: g1)
  next
    case False
    then show ?thesis by (simp add: g1 count_list_0_iff)
  qed
  have I: "move_inv s X A B (g_inputs (graph s1) B) s1"
    using ex(3) by (simp add: move_inv_def g1)
  have It: "move_inv s X A B (g_inputs (graph s1) B) t"
    unfolding t_def using ex(2) allpre I by (rule foldl_move_inv)
  let ?u = "move_path T (Some B) t (X # A # rest)"
  have Iu: "move_inv s X A B (g_inputs (graph s1) B) ?u"
    using It ex(2) by (rule move_path_inv) simp
  have Au: "X \<notin> set (g_inputs (graph ?u) A)"
    using It ex accA by (rule move_path_removes_at)
  have s2: "?s2 = foldl (move_path T (Some B)) ?u ?post"
    by (simp add: paths t_def)
  have I2: "move_inv s X A B (g_inputs (graph s1) B) ?s2"
    unfolding s2 using ex(2) allpost Iu by (rule foldl_move_inv)
  have A2: "X \<notin> set (g_inputs (graph ?s2) A)"
    unfolding s2 using ex(2) allpost Iu Au by (rule foldl_keeps_absent)
  have res: "graph (fst (viewItemChanged T s it)) = graph ?s2"
    using M it ne ex(2) Bn
    by (simp add: viewItemChanged_def Let_def itemNode_def sortFolderChildren_fields s1')
  show ?thesis
    using A2 I2 cnt unfolding res move_inv_def by simp
qed

text \<open>The example session with a pre-check that allows everything.\<close>

theorem move_reconciles_witness:
  "''X'' \<notin> set (g_inputs
      (graph (fst (viewItemChanged accept_all (example_session MoveAction example_graph) example_item))) ''A'') \<and>
   count_list (g_inputs
      (graph (fst (viewItemChanged accept_all (example_session MoveAction example_graph) example_item))) ''B'')
      ''X'' = 1"
  by (rule move_reconciles [where pre = "[]" and rest = "[[]]" and post = "[]"])
     (simp_all add: example_defs nodeExists_def)

text \<open>
  C1, as stated, fails: when the pre-check refuses the new input list of \<open>B\<close>, the alert is
  shown and \<open>X\<close> is not added to \<open>B\<close>, and the loop still takes \<open>X\<close> out of \<open>A\<close>.
\<close>

theorem move_counterexample:
  "nodeExists example_graph ''A'' \<and> nodeExists example_graph ''B'' \<and>
   count_list (g_inputs example_graph ''B'') ''X'' \<le> 1 \<and>
   ''X'' \<notin> set (g_inputs
      (graph (fst (viewItemChanged reject_B (example_session MoveAction example_graph) example_item))) ''A'') \<and>
   ''X'' \<notin> set (g_inputs
      (graph (fst (viewItemChanged reject_B (example_session MoveAction example_graph) example_item))) ''B'')"
  by (simp add: example_defs run_defs)

section \<open>Drops into the inputs list\<close>

text \<open>
  The copy branch of \<^verbatim>\<open>viewItemChanged\<close> belongs to a copy drop inside the tree view,
  whose \<^verbatim>\<open>dropEvent\<close> alone writes \<^verbatim>\<open>_dropAction\<close>. In that branch no input list
  loses an entry either: only the list of the new parent can change, by the item's node
  appended when it was not in it.
\<close>

lemma copy_branch_only_adds:
  fixes T :: tester and s :: session and it :: item
  defines "s' \<equiv> fst (viewItemChanged T s it)" and "it' \<equiv> snd (viewItemChanged T s it)"
  assumes copy: "dropAction s = CopyAction"
  shows "g_nodes (graph s') = g_nodes (graph s) \<and>
     (\<forall>m. \<forall>x \<in> set (g_inputs (graph s) m). x \<in> set (g_inputs (graph s') m)) \<and>
     (\<forall>m. g_inputs (graph s') m = g_inputs (graph s) m \<or>
          (item_parent it = Some m \<and> item_node it \<notin> set (g_inputs (graph s) m) \<and>
           g_inputs (graph s') m = g_inputs (graph s) m @ [item_node it])) \<and>
     (\<exists>cs. calls s' = calls s @ cs \<and>
        (\<forall>c \<in> set cs. (\<exists>msg. c = AlertPanel msg) \<or>
           (\<exists>p. item_parent it = Some p \<and>
                c = SetNodeInputs p (g_inputs (graph s) p @ [item_node it])))) \<and>
     (it' = it \<or> it' = it\<lparr>item_parent_node := item_parent it\<rparr>)"
proof (cases "hasInput s (item_parent it) (item_node it)")
  case True
  with copy show ?thesis
    unfolding s'_def it'_def
    by (simp add: viewItemChanged_def Let_def itemNode_def)
next
  case False
  then obtain p where p: "item_parent it = Some p" "p \<noteq> []"
      "nodeExists (graph s) p \<longrightarrow> item_node it \<notin> set (g_inputs (graph s) p)"
    using hasInput_False by blast
  let ?s1 = "snd (addInput T s p (item_node it))"
  have s1: "g_nodes (graph ?s1) = g_nodes (graph s) \<and>
     (\<forall>m. \<forall>x \<in> set (g_inputs (graph s) m). x \<in> set (g_inputs (graph ?s1) m)) \<and>
     (\<forall>m. g_inputs (graph ?s1) m = g_inputs (graph s) m \<or>
          (item_parent it = Some m \<and> item_node it \<notin> set (g_inputs (graph s) m) \<and>
           g_inputs (graph ?s1) m = g_inputs (graph s) m @ [item_node it])) \<and>
     (\<exists>cs. calls ?s1 = calls s @ cs \<and>
        (\<forall>c \<in> set cs. (\<exists>msg. c = AlertPanel msg) \<or>
           (\<exists>p. item_parent it = Some p \<and>
                c = SetNodeInputs p (g_inputs (graph s) p @ [item_node it]))))"
    using addInput_cases [of T s p "item_node it"] p
    by (auto split: if_splits)
  have "s' = ?s1 \<or> s' = sortFolderChildren ?s1 p"
    and "it' = it\<lparr>item_parent_node := item_parent it\<rparr>"
    unfolding s'_def it'_def
    using copy False p by (auto simp: viewItemChanged_def Let_def itemNode_def)
  with s1 show ?thesis
    by (auto simp: sortFolderChildren_fields)
qed












section \<open>Deleting a selected item\<close>

lemma count_folders_exist:
  "\<forall>x \<in> set outs. nodeExists g x \<Longrightarrow>
   count_folders g outs = Inr (length [x \<leftarrow> outs. g_type g x = ''RVFolderGroup''])"
  by (induction outs) (simp_all add: nodeType_def)

lemma count_folders_outputs:
  "count_folders g (g_outputs g n) = Inr (length [x \<leftarrow> g_outputs g n. g_type g x = ''RVFolderGroup''])"
  by (rule count_folders_exist) (simp add: g_outputs_def nodeExists_def)

text \<open>
  C10. For a selected item whose node exists, whose stored parent is an existing folder, and
  whose node has more than one folder among its outputs, the delete action goes through
  \<^verbatim>\<open>removeInput\<close>: the node and all other nodes stay in the graph, no \<^verbatim>\<open>deleteNode\<close> call
  is made, no input list but the parent's changes, and the parent's list loses every entry
  of the node when the pre-check allows that list (and stays as it is otherwise). In every
  other case the node is not in the graph afterwards.
\<close>

theorem delete_keeps_shared_node:
  fixes T :: tester and s :: session and it :: item
  defines "node \<equiv> item_node it" and "parent \<equiv> itemParentNode it" and "g \<equiv> graph s"
    and "g' \<equiv> graph (delete_item T s it)"
  defines "shared \<equiv> nodeExists g node \<and> nodeExists g parent \<and> g_type g parent = ''RVFolderGroup'' \<and>
             1 < length [x \<leftarrow> g_outputs g node. g_type g x = ''RVFolderGroup'']"
  shows "(shared \<longrightarrow>
            nodeExists g' node \<and> g_nodes g' = g_nodes g \<and>
            (\<forall>m. m \<noteq> parent \<longrightarrow> g_inputs g' m = g_inputs g m) \<and>
            (g_inputs g' parent = g_inputs g parent \<or>
             g_inputs g' parent = [n \<leftarrow> g_inputs g parent. n \<noteq> node]) \<and>
            (parent \<noteq> [] \<and> T g parent [n \<leftarrow> g_inputs g parent. n \<noteq> node] = Inr None \<longrightarrow>
               g_inputs g' parent = [n \<leftarrow> g_inputs g parent. n \<noteq> node]) \<and>
            (\<exists>cs. calls (delete_item T s it) = calls s @ cs \<and> DeleteNode node \<notin> set cs)) \<and>
         (\<not> shared \<longrightarrow> \<not> nodeExists g' node)"
proof (cases shared)
  case True
  then have d: "delete_item T s it = snd (removeInput T s parent node)"
    unfolding shared_def g_def node_def parent_def
    by (simp add: delete_item_def Let_def itemNode_def nodeConnections_def nodeType_def
        count_folders_outputs)
  have ex: "nodeExists (graph s) parent" "nodeExists (graph s) node"
    using True unfolding shared_def g_def by simp_all
  have 1: "nodeExists g' node \<and> g_nodes g' = g_nodes g \<and>
            (\<forall>m. m \<noteq> parent \<longrightarrow> g_inputs g' m = g_inputs g m) \<and>
            (g_inputs g' parent = g_inputs g parent \<or>
             g_inputs g' parent = [n \<leftarrow> g_inputs g parent. n \<noteq> node])"
    using removeInput_graph_cases [of T s parent node] ex
    unfolding g'_def g_def d by (auto simp: nodeExists_def)
  have 2: "parent \<noteq> [] \<and> T g parent [n \<leftarrow> g_inputs g parent. n \<noteq> node] = Inr None \<longrightarrow>
               g_inputs g' parent = [n \<leftarrow> g_inputs g parent. n \<noteq> node]"
    using ex(1) unfolding g'_def g_def d by (auto simp: removeInput_accepted)
  have 3: "\<exists>cs. calls (delete_item T s it) = calls s @ cs \<and> DeleteNode node \<notin> set cs"
    using removeInput_calls [of T s parent node] unfolding d by auto
  from True 1 2 3 show ?thesis by simp
next
  case False
  have "\<not> nodeExists g' node"
  proof (cases "nodeExists g node")
    case False
    then show ?thesis
      unfolding g'_def g_def node_def
      by (simp add: delete_item_def Let_def itemNode_def nodeConnections_def)
  next
    case True
    with False have "g_nodes g' = removeAll node (g_nodes g)"
      unfolding shared_def g'_def g_def node_def parent_def
      by (auto simp: delete_item_def Let_def itemNode_def nodeConnections_def nodeType_def
          count_folders_outputs deleteNode_def)
    then show ?thesis
      by (simp add: nodeExists_def)
  qed
  with False show ?thesis by simp
qed

text \<open>\<open>X\<close> under both folders, deleted from \<open>A\<close>: it stays, as an input of \<open>B\<close>. \<open>X\<close>
  under \<open>A\<close> only: it is deleted.\<close>

theorem delete_witness:
  "nodeExists (graph (delete_item accept_all (example_session IgnoreAction shared_graph) example_item)) ''X'' \<and>
   g_inputs (graph (delete_item accept_all (example_session IgnoreAction shared_graph) example_item)) ''A'' = [] \<and>
   g_inputs (graph (delete_item accept_all (example_session IgnoreAction shared_graph) example_item)) ''B'' = [''X''] \<and>
   \<not> nodeExists (graph (delete_item accept_all (example_session IgnoreAction example_graph) example_item)) ''X''"
  using
    delete_keeps_shared_node
      [where T = accept_all and s = "example_session IgnoreAction shared_graph" and it = example_item]
    delete_keeps_shared_node
      [where T = accept_all and s = "example_session IgnoreAction example_graph" and it = example_item]
  by (simp add: example_defs nodeExists_def g_outputs_def itemParentNode_def)

section \<open>The edit nodes of the transform manipulator\<close>

lemma edit_loop_nodes:
  "editNodes (foldl (edit_step b) m xs) =
     editNodes m @ map (\<lambda>ni. \<lparr>tformNode = fst ni, inputNode = snd ni\<rparr>) xs"
  by (induction xs arbitrary: m) (simp_all add: edit_step_def Let_def)

text \<open>With as many infos as inputs, the pairs are rebuilt in order.\<close>

lemma findEditingNodes_rebuilds:
  "nodeConnections g v = Inr (ins, outs) \<Longrightarrow> length infos = length ins \<Longrightarrow>
   editNodes (findEditingNodes g (Some v) (Inr infos) b m) =
     map (\<lambda>ni. \<lparr>tformNode = fst ni, inputNode = snd ni\<rparr>) (zip infos ins)"
  by (simp add: findEditingNodes_def Let_def edit_loop_nodes)

text \<open>
  C9. When the number of \<^verbatim>\<open>RVTransform2D\<close> infos differs from the number of direct inputs
  of the view node, \<^verbatim>\<open>findEditingNodes\<close> builds no pair from them: the list of edit nodes
  is left empty and no tag property is written.
\<close>

theorem findEditingNodes_size_mismatch:
  "nodeConnections g v = Inr (ins, outs) \<Longrightarrow> length infos \<noteq> length ins \<Longrightarrow>
   findEditingNodes g (Some v) (Inr infos) setStates m = m\<lparr>editNodes := []\<rparr> \<and>
   editNodes (findEditingNodes g (Some v) (Inr infos) setStates m) = [] \<and>
   tags (findEditingNodes g (Some v) (Inr infos) setStates m) = tags m"
  by (simp add: findEditingNodes_def Let_def)

text \<open>Two infos against the one input of \<open>A\<close>.\<close>

theorem findEditingNodes_size_mismatch_witness:
  "editNodes (findEditingNodes example_graph (Some ''A'') (Inr [''t1'', ''t2'']) True
      \<lparr>editNodes = [\<lparr>tformNode = ''t0'', inputNode = ''X''\<rparr>], tags = Map.empty\<rparr>) = [] \<and>
   tags (findEditingNodes example_graph (Some ''A'') (Inr [''t1'', ''t2'']) True
      \<lparr>editNodes = [\<lparr>tformNode = ''t0'', inputNode = ''X''\<rparr>], tags = Map.empty\<rparr>) = Map.empty"
  using findEditingNodes_size_mismatch [of example_graph "''A''" "[''X'']" "[]" "[''t1'', ''t2'']" True
      "\<lparr>editNodes = [\<lparr>tformNode = ''t0'', inputNode = ''X''\<rparr>], tags = Map.empty\<rparr>"]
  by (simp add: nodeConnections_def nodeExists_def g_outputs_def example_defs)

section \<open>The updates-suspended flag\<close>

text \<open>The rename branch of \<^verbatim>\<open>viewItemChanged\<close> wraps its call in a handler: the flag is
  clear afterwards, whether \<^verbatim>\<open>setUIName\<close> raises or not.\<close>

lemma rename_clears_flag:
  "dropAction s = IgnoreAction \<Longrightarrow> item_node it \<noteq> [] \<Longrightarrow> item_subtype it = 0 \<Longrightarrow>
   disableUpdates (fst (viewItemChanged T s it)) = False"
  by (simp add: viewItemChanged_def Let_def itemNode_def itemSubComponentType_def
      NotASubComponent_def)

text \<open>\<^verbatim>\<open>selectedConvertedSubComponents\<close> clears the flag as long as
  \<^verbatim>\<open>sourceFromSubComponent\<close> returns.\<close>

lemma selected_loop_no_raise:
  "\<forall>it n. F it n \<noteq> Inl Exception \<Longrightarrow> \<not> disableUpdates s \<Longrightarrow>
   \<not> disableUpdates (snd (selected_loop F s nodes items))"
proof (induction items arbitrary: s nodes)
  case Nil
  then show ?case by simp
next
  case (Cons it its)
  show ?case
  proof (cases "F it (itemNode it)")
    case (Inl e)
    with Cons.prems(1) show ?thesis by (cases e) auto
  next
    case (Inr snode)
    then show ?thesis
      using Cons.IH [OF Cons.prems(1)] Cons.prems(2)
      by (auto simp: Let_def split: option.splits)
  qed
qed

text \<open>
  C7. \<^verbatim>\<open>selectedConvertedSubComponents\<close> sets the flag around its call of
  \<^verbatim>\<open>sourceFromSubComponent\<close> with no handler: when that call raises for a selected
  sub-component item, the exception leaves the method and the flag, clear before, is set
  afterwards. The claim has every operation clear the flag on every exit path.
\<close>

theorem selected_flag_left_set:
  "disableUpdates (example_session IgnoreAction example_graph) = False \<and>
   selectedConvertedSubComponents (\<lambda>it n. Inl Exception)
       (example_session IgnoreAction example_graph) [example_layer_item] =
     (Inl Exception, (example_session IgnoreAction example_graph)\<lparr>disableUpdates := True\<rparr>)"
  by (simp add: selectedConvertedSubComponents_def example_defs itemNode_def nodeExists_def
      itemIsSubComponent_def Let_def)

section \<open>The scale written by a corner drag\<close>

subsection \<open>Rounding to the nearest integer\<close>








subsection \<open>Comparison, product and quotient of doubles\<close>












subsection \<open>Two roundings between the new scale and the prior ratio\<close>








subsection \<open>The literals, and the drags that return\<close>

text \<open>
  The doubles of the examples are the quotients that Python computes for \<^verbatim>\<open>1.0 / 100.0\<close>,
  \<^verbatim>\<open>1.0 / 10.0\<close> and \<^verbatim>\<open>11.0 / 10.0\<close>, which are the doubles of the literals \<^verbatim>\<open>0.01\<close>,
  \<^verbatim>\<open>0.1\<close> and \<^verbatim>\<open>1.1\<close>. A drag whose prior scale and factor have exponents between
  \<open>- 300\<close> and \<open>200\<close>, that is magnitudes from \<open>2 ^ - 248\<close> up to \<open>2 ^ 253\<close>, or zero,
  stays within the normal doubles and writes a pair.
\<close>

lemmas float_defs = fmul_def fdiv_def fmax_def fless_def round_normal_def round_half_even_def
  Let_def d_0_01_def d_0_1_def d_1_1_def d_1_0_def

lemma literals:
  "fdiv d_1_0 (7036874417766400, - 46) = Some d_0_01"
  "fdiv d_1_0 (5629499534213120, - 49) = Some d_0_1"
  "fdiv (6192449487634432, - 49) (5629499534213120, - 49) = Some d_1_1"
  "dval d_1_0 = 1" "dval (7036874417766400, - 46) = 100"
  "dval (5629499534213120, - 49) = 10" "dval (6192449487634432, - 49) = 11"
  by (simp_all add: float_defs dval_def)

lemma round_normal_returns:
  assumes "- 1074 \<le> e" "e + 1 \<le> 971"
  shows "\<exists>c. round_normal sg n d e = Some c \<and> e \<le> snd c \<and> snd c \<le> e + 1"
  using assms by (simp add: round_normal_def Let_def)

lemma fmul_returns:
  assumes "- 1074 \<le> snd a + snd b + 52" "snd a + snd b + 54 \<le> 971"
  shows "\<exists>c. fmul a b = Some c \<and>
    (c = (0, 0) \<or> snd a + snd b + 52 \<le> snd c \<and> snd c \<le> snd a + snd b + 54)"
proof -
  obtain m1 e1 where A: "a = (m1, e1)" by (cases a)
  obtain m2 e2 where B: "b = (m2, e2)" by (cases b)
  show ?thesis
  proof (cases "m1 = 0 \<or> m2 = 0")
    case True
    then show ?thesis by (auto simp: fmul_def A B)
  next
    case False
    show ?thesis
    proof (cases "\<bar>m1\<bar> * \<bar>m2\<bar> < 2 ^ 105")
      case True
      from round_normal_returns [of "e1 + e2 + 52" "sgn m1 * sgn m2" "\<bar>m1\<bar> * \<bar>m2\<bar>" "2 ^ 52"]
      show ?thesis using assms False True by (auto simp: fmul_def A B Let_def)
    next
      case F: False
      from round_normal_returns [of "e1 + e2 + 53" "sgn m1 * sgn m2" "\<bar>m1\<bar> * \<bar>m2\<bar>" "2 ^ 53"]
      show ?thesis using assms False F by (auto simp: fmul_def A B Let_def)
    qed
  qed
qed

lemma fdiv_returns:
  assumes "fst b \<noteq> 0" "- 1074 \<le> snd a - snd b - 53" "snd a - snd b - 51 \<le> 971"
  shows "\<exists>c. fdiv a b = Some c \<and>
    (c = (0, 0) \<or> snd a - snd b - 53 \<le> snd c \<and> snd c \<le> snd a - snd b - 51)"
proof -
  obtain m1 e1 where A: "a = (m1, e1)" by (cases a)
  obtain m2 e2 where B: "b = (m2, e2)" by (cases b)
  have nz: "m2 \<noteq> 0" using assms(1) by (simp add: B)
  show ?thesis
  proof (cases "m1 = 0")
    case True
    then show ?thesis using nz by (simp add: fdiv_def A B)
  next
    case False
    show ?thesis
    proof (cases "\<bar>m2\<bar> \<le> \<bar>m1\<bar>")
      case True
      from round_normal_returns [of "e1 - e2 - 52" "sgn m1 * sgn m2" "\<bar>m1\<bar> * 2 ^ 52" "\<bar>m2\<bar>"]
      show ?thesis using assms False True nz by (auto simp: fdiv_def A B Let_def)
    next
      case F: False
      from round_normal_returns [of "e1 - e2 - 53" "sgn m1 * sgn m2" "\<bar>m1\<bar> * 2 ^ 53" "\<bar>m2\<bar>"]
      show ?thesis using assms False F nz by (auto simp: fdiv_def A B Let_def)
    qed
  qed
qed

lemma drag_scale_returns:
  assumes sx: "- 300 \<le> snd sx" "snd sx \<le> 200"
    and sy: "- 300 \<le> snd sy" "snd sy \<le> 200"
    and scl: "- 300 \<le> snd scl" "snd scl \<le> 200"
  shows "\<exists>nx ny. drag_scale sx sy scl = Some (nx, ny)"
proof -
  obtain p where p: "fmul sx scl = Some p"
    and pe: "p = (0, 0) \<or> snd sx + snd scl + 52 \<le> snd p \<and> snd p \<le> snd sx + snd scl + 54"
    using fmul_returns [of sx scl] sx scl by auto
  define nx where "nx = fmax p d_0_01"
  have "nx = p \<or> nx = d_0_01" by (simp add: nx_def fmax_def)
  then have nxe: "- 548 \<le> snd nx" "snd nx \<le> 454"
    using pe sx scl by (auto simp: d_0_01_def)
  show ?thesis
  proof (cases "fst sx = 0")
    case True
    then show ?thesis by (simp add: drag_scale_def p Let_def)
  next
    case False
    obtain q where q: "fmul sy nx = Some q"
      and qe: "q = (0, 0) \<or> snd sy + snd nx + 52 \<le> snd q \<and> snd q \<le> snd sy + snd nx + 54"
      using fmul_returns [of sy nx] sy nxe by auto
    have qe': "- 796 \<le> snd q" "snd q \<le> 708" using qe sy nxe by auto
    obtain y where y: "fdiv q sx = Some y"
      using fdiv_returns [of sx q] False qe' sx by auto
    show ?thesis using False by (simp add: drag_scale_def p Let_def nx_def [symmetric] q y)
  qed
qed






end
